theory Spec2Isabelle
  imports Complex_Main "HOL-Library.Char_ord" "HOL-Library.List_Lexorder" "HOL-Library.Multiset"
begin

section \<open>Metadata filtering notebook: the entity models and the filter builder\<close>

text \<open>
  The development covers the three pieces of logic of
  \<^verbatim>\<open>agent_with_metadata_filtering.ipynb\<close> (Method 2): the Pydantic models
  \<^verbatim>\<open>Entity\<close> and \<^verbatim>\<open>ExtractedEntities\<close> with the pre-validator
  \<^verbatim>\<open>remove_duplicates\<close>, and \<^verbatim>\<open>construct_metadata_filter\<close>.
\<close>

subsection \<open>Data model\<close>

text \<open>
  \<^verbatim>\<open>class Entity(BaseModel)\<close> has three fields of type \<^verbatim>\<open>Optional[str]\<close>;
  \<^verbatim>\<open>None\<close> is \<open>None\<close>, a Python string is \<open>Some s\<close>.
\<close>

record Entity =
  employee_name :: "string option"
  document_type :: "string option"
  role :: "string option"

text \<open>\<^verbatim>\<open>class ExtractedEntities(BaseModel)\<close> with its one field \<^verbatim>\<open>entities: List[Entity]\<close>.\<close>

record ExtractedEntities =
  entities :: "Entity list"

text \<open>
  The dictionaries the builder returns: \<^verbatim>\<open>{"equals": {"key": k, "value": v}}\<close> is
  \<open>Equals k v\<close> and \<^verbatim>\<open>{"andAll": [...]}\<close> is \<open>AndAll [...]\<close>.
\<close>

datatype FilterExpression =
  Equals string string
| AndAll "FilterExpression list"

text \<open>
  A place in the parsed input, as Pydantic reports it in the \<^verbatim>\<open>loc\<close> of an error: a
  field name or a list index.
\<close>

datatype loc_item = Key string | Idx nat

text \<open>
  The exceptions of the Python code that the models below can raise. A
  \<^verbatim>\<open>ValidationError\<close> carries the locations of all the errors it reports.
\<close>

datatype py_error =
  IndexError
| AttributeError
| TypeError
| ValidationError "loc_item list list"

subsection \<open>The filter builder\<close>

text \<open>
  Truthiness of an \<^verbatim>\<open>Optional[str]\<close>: \<^verbatim>\<open>None\<close> and the empty string are falsy.
\<close>

fun truthy :: "string option \<Rightarrow> bool" where
  "truthy None = False"
| "truthy (Some s) = (s \<noteq> [])"

text \<open>\<^verbatim>\<open>xs[0]\<close> raises \<^verbatim>\<open>IndexError\<close> on an empty list.\<close>

fun index0 :: "'a list \<Rightarrow> py_error + 'a" where
  "index0 [] = Inl IndexError"
| "index0 (x # xs) = Inr x"

text \<open>
  One guarded append of the builder,
  \<^verbatim>\<open>if entity.f and entity.f != "unknown": metadata_filter["andAll"].append({"equals": {"key": k, "value": entity.f}})\<close>:
  the list \<open>andAll\<close> before the statement is mapped to the list after it.
\<close>

fun append_equals :: "string \<Rightarrow> string option \<Rightarrow> FilterExpression list \<Rightarrow> FilterExpression list" where
  "append_equals k None andAll = andAll"
| "append_equals k (Some v) andAll =
     (if truthy (Some v) \<and> v \<noteq> ''unknown'' then andAll @ [Equals k v] else andAll)"

text \<open>
  \<^verbatim>\<open>def construct_metadata_filter(extracted_entities)\<close>. The argument is \<^verbatim>\<open>None\<close>
  or an \<^verbatim>\<open>ExtractedEntities\<close> object (always truthy: the class defines neither
  \<^verbatim>\<open>__bool__\<close> nor \<^verbatim>\<open>__len__\<close>). The result is \<open>Inl e\<close> when the body raises
  \<open>e\<close>, \<open>Inr None\<close> when it returns \<^verbatim>\<open>None\<close> and \<open>Inr (Some f)\<close> when it returns
  the dictionary \<open>f\<close>.
\<close>

definition construct_metadata_filter ::
  "ExtractedEntities option \<Rightarrow> py_error + FilterExpression option" where
  "construct_metadata_filter extracted_entities =
     (case extracted_entities of
        None \<Rightarrow> Inr None
      | Some ee \<Rightarrow>
          if entities ee = [] then Inr None
          else
            (case index0 (entities ee) of
               Inl e \<Rightarrow> Inl e
             | Inr entity \<Rightarrow>
                 let andAll0 = [];
                     andAll1 = append_equals ''employee_name'' (employee_name entity) andAll0;
                     andAll2 = append_equals ''document_type'' (document_type entity) andAll1;
                     andAll3 = append_equals ''role'' (role entity) andAll2
                 in Inr (if andAll3 \<noteq> [] then Some (AndAll andAll3) else None)))"

subsection \<open>The filter builder on a store of objects\<close>

text \<open>
  The same function with its effects written out. Python passes references: the argument
  is \<^verbatim>\<open>None\<close> or the address of an object, the dictionary
  \<^verbatim>\<open>metadata_filter = {"andAll": []}\<close> holds a list that the body creates and then
  extends in place with \<^verbatim>\<open>append\<close>. The world is the store of the objects that exist,
  an object's address being its index, and the calls of external services made so far (in
  the notebook \<^verbatim>\<open>bedrock_runtime_client.converse\<close> and the invocation of the agent).
\<close>

datatype obj =
  EntitiesObj ExtractedEntities
| ListObj "FilterExpression list"

record world =
  store :: "obj list"
  service_calls :: "string list"

text \<open>The object at an address, if there is one.\<close>

definition fetch :: "world \<Rightarrow> nat \<Rightarrow> obj option" where
  "fetch w a = (if a < length (store w) then Some (store w ! a) else None)"

text \<open>\<^verbatim>\<open>[]\<close>: a new empty list, at the next free address.\<close>

definition new_list :: "world \<Rightarrow> nat \<times> world" where
  "new_list w = (length (store w), w\<lparr>store := store w @ [ListObj []]\<rparr>)"

text \<open>
  \<^verbatim>\<open>xs.append(x)\<close> on the list at address \<open>a\<close>: the list is changed in place. The
  builder appends to the list it has created and to no other object; for an address that
  holds no list the world is returned as it is.
\<close>

definition list_append :: "nat \<Rightarrow> FilterExpression \<Rightarrow> world \<Rightarrow> world" where
  "list_append a x w =
     (case fetch w a of
        Some (ListObj xs) \<Rightarrow> w\<lparr>store := (store w)[a := ListObj (xs @ [x])]\<rparr>
      | _ \<Rightarrow> w)"

text \<open>
  A call of an external service, as \<^verbatim>\<open>extract_entities\<close> makes one with
  \<^verbatim>\<open>bedrock_runtime_client.converse\<close>: the call is added to the calls made. The body of
  \<^verbatim>\<open>construct_metadata_filter\<close> has no such call.
\<close>

definition call_service :: "string \<Rightarrow> world \<Rightarrow> world" where
  "call_service name w = w\<lparr>service_calls := service_calls w @ [name]\<rparr>"

text \<open>One guarded append of the builder, on the list at address \<open>a\<close>.\<close>

fun append_equals_at :: "string \<Rightarrow> string option \<Rightarrow> nat \<Rightarrow> world \<Rightarrow> world" where
  "append_equals_at k None a w = w"
| "append_equals_at k (Some v) a w =
     (if truthy (Some v) \<and> v \<noteq> ''unknown'' then list_append a (Equals k v) w else w)"

text \<open>
  The body of \<^verbatim>\<open>construct_metadata_filter\<close> run in a world: the result and the world
  after the call. An argument of the declared domain is \<^verbatim>\<open>None\<close> or the address of an
  \<^verbatim>\<open>ExtractedEntities\<close>. For an address that holds a list, an empty list is falsy and
  gives \<^verbatim>\<open>None\<close>, any other has no attribute \<^verbatim>\<open>entities\<close>; an address that holds
  nothing is no reference of Python and is given the same error. The returned dictionary
  is read off the list as it stands at the end.
\<close>

definition construct_metadata_filter_run ::
  "nat option \<Rightarrow> world \<Rightarrow> (py_error + FilterExpression option) \<times> world" where
  "construct_metadata_filter_run extracted_entities w =
     (case extracted_entities of
        None \<Rightarrow> (Inr None, w)
      | Some p \<Rightarrow>
          (case fetch w p of
             None \<Rightarrow> (Inl AttributeError, w)
           | Some (ListObj xs) \<Rightarrow> if xs = [] then (Inr None, w) else (Inl AttributeError, w)
           | Some (EntitiesObj ee) \<Rightarrow>
               if entities ee = [] then (Inr None, w)
               else
                 (case index0 (entities ee) of
                    Inl e \<Rightarrow> (Inl e, w)
                  | Inr entity \<Rightarrow>
                      let (a, w0) = new_list w;
                          w1 = append_equals_at ''employee_name'' (employee_name entity) a w0;
                          w2 = append_equals_at ''document_type'' (document_type entity) a w1;
                          w3 = append_equals_at ''role'' (role entity) a w2
                      in (case fetch w3 a of
                            Some (ListObj andAll) \<Rightarrow>
                              (Inr (if andAll \<noteq> [] then Some (AndAll andAll) else None), w3)
                          | _ \<Rightarrow> (Inl AttributeError, w3)))))"

text \<open>The value of the argument: what the address holds.\<close>

definition argument_value :: "world \<Rightarrow> nat option \<Rightarrow> ExtractedEntities option" where
  "argument_value w extracted_entities =
     (case extracted_entities of
        None \<Rightarrow> None
      | Some p \<Rightarrow> (case fetch w p of Some (EntitiesObj ee) \<Rightarrow> Some ee | _ \<Rightarrow> None))"

subsection \<open>Raw extractor output\<close>

text \<open>
  The values of the tool input that \<^verbatim>\<open>extract_entities\<close> hands to
  \<^verbatim>\<open>ExtractedEntities.parse_obj\<close>: decoded JSON, that is \<^verbatim>\<open>None\<close>, booleans, integers,
  floats, strings, lists and dictionaries with string keys. A dictionary is the list of
  its items in insertion order; a dictionary of Python has no key twice. A float is the
  real number it stands for, which is what its comparisons with integers, booleans and
  other floats go by; \<^verbatim>\<open>NaN\<close> and the infinities, which are no JSON, are left out.
\<close>

datatype pyval =
  PNone
| PBool bool
| PInt int
| PFloat real
| PStr string
| PList "pyval list"
| PDict "(string \<times> pyval) list"

text \<open>
  \<^verbatim>\<open>for entity in entities\<close>: a list yields its elements, a dictionary its keys, a
  string its characters (each a string of length one); \<^verbatim>\<open>None\<close>, booleans and
  numbers are not iterable.
\<close>

fun py_iter :: "pyval \<Rightarrow> py_error + pyval list" where
  "py_iter (PList xs) = Inr xs"
| "py_iter (PDict d) = Inr (map (\<lambda>kv. PStr (fst kv)) d)"
| "py_iter (PStr s) = Inr (map (\<lambda>c. PStr [c]) s)"
| "py_iter PNone = Inl TypeError"
| "py_iter (PBool b) = Inl TypeError"
| "py_iter (PInt i) = Inl TypeError"
| "py_iter (PFloat x) = Inl TypeError"

text \<open>\<^verbatim>\<open>entity.items()\<close>: only a dictionary has the method.\<close>

fun py_items :: "pyval \<Rightarrow> py_error + (string \<times> pyval) list" where
  "py_items (PDict d) = Inr d"
| "py_items v = Inl AttributeError"

text \<open>
  \<^verbatim>\<open>sorted(entity.items())\<close> orders the \<^verbatim>\<open>(key, value)\<close> pairs. The keys of a
  dictionary differ from each other, so the comparison of two pairs is decided by their
  keys and never looks at the values; the sort is stable.
\<close>

definition py_sorted_items :: "(string \<times> pyval) list \<Rightarrow> (string \<times> pyval) list" where
  "py_sorted_items its = sort_key fst its"

text \<open>
  Membership in the set \<^verbatim>\<open>seen\<close> hashes the tuple, which hashes every key and value
  in it. \<^verbatim>\<open>None\<close>, booleans, numbers and strings are hashable; a list or a
  dictionary raises \<^verbatim>\<open>TypeError\<close>. \<open>hval\<close> are the hashable values, and
  \<open>hash_tuple\<close> is the tuple as the set keeps it, or the error.
\<close>

datatype hval = HNone | HBool bool | HInt int | HFloat real | HStr string

fun py_hashable :: "pyval \<Rightarrow> py_error + hval" where
  "py_hashable PNone = Inr HNone"
| "py_hashable (PBool b) = Inr (HBool b)"
| "py_hashable (PInt i) = Inr (HInt i)"
| "py_hashable (PFloat x) = Inr (HFloat x)"
| "py_hashable (PStr s) = Inr (HStr s)"
| "py_hashable (PList xs) = Inl TypeError"
| "py_hashable (PDict d) = Inl TypeError"

fun hash_tuple :: "(string \<times> pyval) list \<Rightarrow> py_error + (string \<times> hval) list" where
  "hash_tuple [] = Inr []"
| "hash_tuple ((k, v) # its) =
     (case py_hashable v of
        Inl e \<Rightarrow> Inl e
      | Inr h \<Rightarrow> (case hash_tuple its of Inl e \<Rightarrow> Inl e | Inr hs \<Rightarrow> Inr ((k, h) # hs)))"

text \<open>
  Equality of hashable values, \<^verbatim>\<open>==\<close>. Booleans, integers and floats are numbers
  and compare by their value: a boolean stands for 0 or 1, so \<^verbatim>\<open>True == 1\<close> and
  \<^verbatim>\<open>1 == 1.0\<close>. \<^verbatim>\<open>None\<close> equals itself only, a string equals the same string
  only, and values of different kinds are unequal.
\<close>

fun num_of :: "hval \<Rightarrow> real option" where
  "num_of (HBool b) = Some (if b then 1 else 0)"
| "num_of (HInt i) = Some (of_int i)"
| "num_of (HFloat x) = Some x"
| "num_of h = None"

fun hval_eq :: "hval \<Rightarrow> hval \<Rightarrow> bool" where
  "hval_eq HNone HNone = True"
| "hval_eq (HStr s) (HStr t) = (s = t)"
| "hval_eq a b =
     (case (num_of a, num_of b) of
        (Some x, Some y) \<Rightarrow> x = y
      | _ \<Rightarrow> False)"

text \<open>Equality of two tuples of pairs: same length, equal keys and equal values.\<close>

definition tuple_eq :: "(string \<times> hval) list \<Rightarrow> (string \<times> hval) list \<Rightarrow> bool" where
  "tuple_eq a b = list_all2 (\<lambda>x y. fst x = fst y \<and> hval_eq (snd x) (snd y)) a b"

text \<open>\<^verbatim>\<open>entity_tuple in seen\<close>; the set is the list of its elements.\<close>

definition in_seen :: "(string \<times> hval) list \<Rightarrow> (string \<times> hval) list list \<Rightarrow> bool" where
  "in_seen t seen = list_ex (tuple_eq t) seen"

subsection \<open>The validator \<^verbatim>\<open>remove_duplicates\<close>\<close>

text \<open>
  The body of the \<^verbatim>\<open>for\<close> loop of \<^verbatim>\<open>remove_duplicates\<close>, over the entities still to
  visit, with the set \<^verbatim>\<open>seen\<close> and the list \<^verbatim>\<open>unique_entities\<close> as they stand.
  \<^verbatim>\<open>dict(entity_tuple)\<close> is the dictionary with the items in sorted order.
\<close>

fun remove_duplicates_loop ::
  "pyval list \<Rightarrow> (string \<times> hval) list list \<Rightarrow> pyval list \<Rightarrow> py_error + pyval list" where
  "remove_duplicates_loop [] seen unique_entities = Inr unique_entities"
| "remove_duplicates_loop (entity # rest) seen unique_entities =
     (case py_items entity of
        Inl e \<Rightarrow> Inl e
      | Inr its \<Rightarrow>
          let entity_tuple = py_sorted_items its in
          (case hash_tuple entity_tuple of
             Inl e \<Rightarrow> Inl e
           | Inr h \<Rightarrow>
               if \<not> in_seen h seen
               then remove_duplicates_loop rest (seen @ [h])
                      (unique_entities @ [PDict entity_tuple])
               else remove_duplicates_loop rest seen unique_entities))"

text \<open>
  \<^verbatim>\<open>remove_duplicates(cls, entities)\<close>, a validator with \<^verbatim>\<open>pre=True\<close>: it receives the
  raw value of the field \<^verbatim>\<open>entities\<close>, before any validation of the items.
\<close>

definition remove_duplicates :: "pyval \<Rightarrow> py_error + pyval list" where
  "remove_duplicates entities_raw =
     (case py_iter entities_raw of
        Inl e \<Rightarrow> Inl e
      | Inr es \<Rightarrow> remove_duplicates_loop es [] [])"

subsection \<open>Parsing with the Pydantic models\<close>

text \<open>
  \<^verbatim>\<open>Entity\<close> and \<^verbatim>\<open>ExtractedEntities\<close> declare their fields and nothing else: no
  \<^verbatim>\<open>Config\<close>, no validator on a field of \<^verbatim>\<open>Entity\<close>. What Pydantic does with such
  a class is modelled as follows. A field is looked up in the input dictionary by its name;
  keys of the input that are no field of the class are ignored (the library's default for
  extra fields). The notebook installs Pydantic without a version, and three behaviours
  differ between its major versions; they are parameters of the model:
  \<^item> \<open>sv\<close>, what the validator of \<^verbatim>\<open>str\<close> does with a value that is neither
    \<^verbatim>\<open>None\<close> nor a string: \<open>None\<close> when it rejects the value, \<open>Some s\<close> when it
    coerces the value to the string \<open>s\<close>;
  \<^item> \<open>req\<close>, whether a field of type \<^verbatim>\<open>Optional[str]\<close> without a default is
    required (an error when the key is missing) or defaults to \<^verbatim>\<open>None\<close>;
  \<^item> \<open>wte\<close>, whether a \<^verbatim>\<open>TypeError\<close> raised inside a validator is reported as a
    \<^verbatim>\<open>ValidationError\<close> of the validated field (version 1) or leaves the parse as it
    was raised (version 2). An \<^verbatim>\<open>AttributeError\<close> leaves the parse as it was raised in
    both versions.
  Version 1 is a coercing \<open>sv\<close> with \<open>req = False\<close> and \<open>wte = True\<close>; version 2
  is \<open>sv\<close> rejecting every value with \<open>req = True\<close> and \<open>wte = False\<close>.
  The result of validating one field is \<open>None\<close> for an error and \<open>Some v\<close> for the
  value \<open>v\<close> of the field.
\<close>

fun optional_str :: "(pyval \<Rightarrow> string option) \<Rightarrow> pyval \<Rightarrow> string option option" where
  "optional_str sv PNone = Some None"
| "optional_str sv (PStr s) = Some (Some s)"
| "optional_str sv v = (case sv v of None \<Rightarrow> None | Some s \<Rightarrow> Some (Some s))"

definition validate_field ::
  "(pyval \<Rightarrow> string option) \<Rightarrow> bool \<Rightarrow> (string \<times> pyval) list \<Rightarrow> string \<Rightarrow> string option option" where
  "validate_field sv req d f =
     (case map_of d f of
        None \<Rightarrow> if req then None else Some None
      | Some v \<Rightarrow> optional_str sv v)"

text \<open>
  Validation of one item of \<^verbatim>\<open>entities\<close> against \<^verbatim>\<open>Entity\<close>, at the location \<open>loc\<close>:
  the three fields in the order of their declaration; every field in error is reported.
\<close>

definition field_errors :: "loc_item list \<Rightarrow> (string \<times> string option option) list \<Rightarrow> loc_item list list" where
  "field_errors loc rs = map (\<lambda>fr. loc @ [Key (fst fr)]) (filter (\<lambda>fr. snd fr = None) rs)"

fun validate_Entity ::
  "(pyval \<Rightarrow> string option) \<Rightarrow> bool \<Rightarrow> loc_item list \<Rightarrow> pyval \<Rightarrow> loc_item list list + Entity" where
  "validate_Entity sv req loc (PDict d) =
     (let a = validate_field sv req d ''employee_name'';
          b = validate_field sv req d ''document_type'';
          c = validate_field sv req d ''role''
      in case (a, b, c) of
           (Some x, Some y, Some z) \<Rightarrow> Inr \<lparr>employee_name = x, document_type = y, role = z\<rparr>
         | _ \<Rightarrow> Inl (field_errors loc
                    [(''employee_name'', a), (''document_type'', b), (''role'', c)]))"
| "validate_Entity sv req loc v = Inl [loc]"

text \<open>
  Validation of the list that \<^verbatim>\<open>remove_duplicates\<close> returned against
  \<^verbatim>\<open>List[Entity]\<close>: item \<open>i\<close> is validated at \<^verbatim>\<open>("entities", i)\<close>; the errors of all
  the items are collected.
\<close>

fun validate_items ::
  "(pyval \<Rightarrow> string option) \<Rightarrow> bool \<Rightarrow> nat \<Rightarrow> pyval list \<Rightarrow> loc_item list list \<times> Entity list" where
  "validate_items sv req i [] = ([], [])"
| "validate_items sv req i (u # us) =
     (let (errs, ents) = validate_items sv req (Suc i) us in
      case validate_Entity sv req [Key ''entities'', Idx i] u of
        Inl es \<Rightarrow> (es @ errs, ents)
      | Inr e \<Rightarrow> (errs, e # ents))"

text \<open>
  An exception \<open>e\<close> that the validator of the field \<^verbatim>\<open>entities\<close> raised, as it leaves
  the parse.
\<close>

definition validator_error :: "bool \<Rightarrow> py_error \<Rightarrow> py_error" where
  "validator_error wte e =
     (if wte \<and> e = TypeError then ValidationError [[Key ''entities'']] else e)"

text \<open>
  \<^verbatim>\<open>ExtractedEntities.parse_obj(json_entities)\<close> on a dictionary: the field
  \<^verbatim>\<open>entities\<close> is required; its raw value goes through \<^verbatim>\<open>remove_duplicates\<close> first
  (an exception of the validator ends the parse), then through the validation of the
  items.
\<close>

definition parse_obj ::
  "(pyval \<Rightarrow> string option) \<Rightarrow> bool \<Rightarrow> bool \<Rightarrow> (string \<times> pyval) list \<Rightarrow>
   py_error + ExtractedEntities" where
  "parse_obj sv req wte obj =
     (case map_of obj ''entities'' of
        None \<Rightarrow> Inl (ValidationError [[Key ''entities'']])
      | Some entities_raw \<Rightarrow>
          (case remove_duplicates entities_raw of
             Inl e \<Rightarrow> Inl (validator_error wte e)
           | Inr us \<Rightarrow>
               (case validate_items sv req 0 us of
                  ([], ents) \<Rightarrow> Inr \<lparr>entities = ents\<rparr>
                | (errs, ents) \<Rightarrow> Inl (ValidationError errs))))"

text \<open>
  The end of \<^verbatim>\<open>extract_entities\<close>, from the tool input \<^verbatim>\<open>json_entities\<close> found in the
  model's response (a JSON object, or \<^verbatim>\<open>None\<close> when the response has no use of the
  tool; the call of the model itself is not part of the embedding):
  \<^verbatim>\<open>if json_entities: return ExtractedEntities.parse_obj(json_entities)\<close>, otherwise
  \<^verbatim>\<open>None\<close>. An empty dictionary is falsy.
\<close>

definition extract_entities_result ::
  "(pyval \<Rightarrow> string option) \<Rightarrow> bool \<Rightarrow> bool \<Rightarrow> (string \<times> pyval) list option \<Rightarrow>
   py_error + ExtractedEntities option" where
  "extract_entities_result sv req wte json_entities =
     (case json_entities of
        None \<Rightarrow> Inr None
      | Some obj \<Rightarrow>
          if obj = [] then Inr None
          else (case parse_obj sv req wte obj of Inl e \<Rightarrow> Inl e | Inr ee \<Rightarrow> Inr (Some ee)))"

subsection \<open>Records and duplicates, as the specification words them\<close>

text \<open>
  An entity record of the data model: a dictionary (no key twice) whose values are
  strings or \<^verbatim>\<open>None\<close>.
\<close>

fun str_or_none :: "pyval \<Rightarrow> bool" where
  "str_or_none PNone = True"
| "str_or_none (PStr s) = True"
| "str_or_none v = False"

fun entity_record :: "pyval \<Rightarrow> bool" where
  "entity_record (PDict d) = (distinct (map fst d) \<and> list_all (\<lambda>kv. str_or_none (snd kv)) d)"
| "entity_record v = False"

text \<open>
  Two records are duplicates when they are structurally equal: the same fields with the
  same values, in whatever order the fields come.
\<close>

fun same_record :: "pyval \<Rightarrow> pyval \<Rightarrow> bool" where
  "same_record (PDict a) (PDict b) = (set a = set b)"
| "same_record u v = False"

text \<open>
  The records with duplicates removed: the first occurrence of each record stays, in its
  place; every later duplicate of it goes.
\<close>

fun spec_dedup :: "pyval list \<Rightarrow> pyval list" where
  "spec_dedup [] = []"
| "spec_dedup (x # xs) = x # spec_dedup (filter (\<lambda>y. \<not> same_record x y) xs)"

subsection \<open>Records and duplicates, as Python compares them\<close>

text \<open>
  A raw record whose values can be hashed: a dictionary (no key twice) whose values are
  \<^verbatim>\<open>None\<close>, booleans, numbers or strings.
\<close>

fun scalar :: "pyval \<Rightarrow> bool" where
  "scalar (PList xs) = False"
| "scalar (PDict d) = False"
| "scalar v = True"

fun raw_record :: "pyval \<Rightarrow> bool" where
  "raw_record (PDict d) = (distinct (map fst d) \<and> list_all (\<lambda>kv. scalar (snd kv)) d)"
| "raw_record v = False"

text \<open>\<^verbatim>\<open>v == w\<close> for two hashable values.\<close>

definition py_equal :: "pyval \<Rightarrow> pyval \<Rightarrow> bool" where
  "py_equal v w =
     (case (py_hashable v, py_hashable w) of
        (Inr a, Inr b) \<Rightarrow> hval_eq a b
      | _ \<Rightarrow> False)"

text \<open>
  \<^verbatim>\<open>a == b\<close> for two dictionaries with hashable values: they have the same number of
  items, and every key of \<open>a\<close> is a key of \<open>b\<close> with an equal value. The order of the
  items plays no part.
\<close>

fun py_same_record :: "pyval \<Rightarrow> pyval \<Rightarrow> bool" where
  "py_same_record (PDict a) (PDict b) =
     (length a = length b \<and>
      list_all (\<lambda>kv. case map_of b (fst kv) of
                        None \<Rightarrow> False
                      | Some w \<Rightarrow> py_equal (snd kv) w) a)"
| "py_same_record u v = False"

text \<open>
  The records with duplicates removed, for this equality: the first occurrence of each
  record stays, in its place; every later record equal to it goes.
\<close>

fun py_dedup :: "pyval list \<Rightarrow> pyval list" where
  "py_dedup [] = []"
| "py_dedup (x # xs) = x # py_dedup (filter (\<lambda>y. \<not> py_same_record x y) xs)"

subsection \<open>Reading the builder's result\<close>

text \<open>
  The list under \<^verbatim>\<open>"andAll"\<close> of a returned dictionary; empty when the builder
  returned \<^verbatim>\<open>None\<close>.
\<close>

fun conjunction_of :: "py_error + FilterExpression option \<Rightarrow> FilterExpression list" where
  "conjunction_of (Inr (Some (AndAll ls))) = ls"
| "conjunction_of _ = []"

text \<open>
  The guard of each of the three \<^verbatim>\<open>if\<close> statements of the builder, as a predicate on
  the field: the field is truthy (neither \<^verbatim>\<open>None\<close> nor the empty string) and differs
  from \<^verbatim>\<open>"unknown"\<close>.
\<close>

definition qualifies :: "string option \<Rightarrow> bool" where
  "qualifies f = (f \<noteq> None \<and> f \<noteq> Some [] \<and> f \<noteq> Some ''unknown'')"

text \<open>
  The specification's wording of the same condition: the field is present and its value
  is not the sentinel \<^verbatim>\<open>"unknown"\<close>.
\<close>

definition spec_qualifies :: "string option \<Rightarrow> bool" where
  "spec_qualifies f = (f \<noteq> None \<and> f \<noteq> Some ''unknown'')"

text \<open>
  The leaves a record contributes under a given notion \<open>q\<close> of a qualifying field, in the
  order subject identity, category, role.
\<close>

definition leaves_where :: "(string option \<Rightarrow> bool) \<Rightarrow> Entity \<Rightarrow> FilterExpression list" where
  "leaves_where q r =
     (if q (employee_name r) then [Equals ''employee_name'' (the (employee_name r))] else []) @
     (if q (document_type r) then [Equals ''document_type'' (the (document_type r))] else []) @
     (if q (role r) then [Equals ''role'' (the (role r))] else [])"

text \<open>The names of the fields that qualify, as a set: what two records may share.\<close>

definition qualifying_fields :: "Entity \<Rightarrow> string set" where
  "qualifying_fields r =
     (if qualifies (employee_name r) then {''employee_name''} else {}) \<union>
     (if qualifies (document_type r) then {''document_type''} else {}) \<union>
     (if qualifies (role r) then {''role''} else {})"

text \<open>The key of an \<^verbatim>\<open>equals\<close> leaf.\<close>

fun leaf_key :: "FilterExpression \<Rightarrow> string" where
  "leaf_key (Equals k v) = k"
| "leaf_key (AndAll ls) = []"

subsection \<open>Notions for the proofs about \<^verbatim>\<open>remove_duplicates\<close>\<close>

text \<open>
  The hashable value of \<^verbatim>\<open>None\<close>, a boolean, a number or a string; on these values
  \<open>py_hashable v = Inr (hv v)\<close>.
\<close>

fun hv :: "pyval \<Rightarrow> hval" where
  "hv (PBool b) = HBool b"
| "hv (PInt i) = HInt i"
| "hv (PFloat x) = HFloat x"
| "hv (PStr s) = HStr s"
| "hv v = HNone"

text \<open>The tuple that \<^verbatim>\<open>remove_duplicates\<close> puts into \<^verbatim>\<open>seen\<close> for a record.\<close>

fun record_key :: "pyval \<Rightarrow> (string \<times> hval) list" where
  "record_key (PDict d) = map (\<lambda>kv. (fst kv, hv (snd kv))) (py_sorted_items d)"
| "record_key v = []"

text \<open>
  \<^verbatim>\<open>dict(tuple(sorted(entity.items())))\<close>, the record as \<^verbatim>\<open>remove_duplicates\<close> returns
  it: the same items, in the order of their keys.
\<close>

fun sorted_record :: "pyval \<Rightarrow> pyval" where
  "sorted_record (PDict d) = PDict (py_sorted_items d)"
| "sorted_record v = v"

subsection \<open>Notions for the properties of parsing\<close>

text \<open>A record that has the three fields of \<^verbatim>\<open>Entity\<close> among its keys.\<close>

fun has_all_fields :: "pyval \<Rightarrow> bool" where
  "has_all_fields (PDict d) =
     (''employee_name'' \<in> fst ` set d \<and> ''document_type'' \<in> fst ` set d \<and> ''role'' \<in> fst ` set d)"
| "has_all_fields v = False"

section \<open>Properties of the filter builder\<close>

lemma append_equals_qualifies:
  "append_equals k f acc = (if qualifies f then acc @ [Equals k (the f)] else acc)"
  by (cases f) (simp_all add: qualifies_def)

lemma construct_metadata_filter_Cons:
  "entities ee = r # rest \<Longrightarrow>
   construct_metadata_filter (Some ee) =
     Inr (if leaves_where qualifies r = [] then None
          else Some (AndAll (leaves_where qualifies r)))"
  by (simp add: construct_metadata_filter_def append_equals_qualifies leaves_where_def Let_def)

lemma leaves_where_keys:
  "map leaf_key (leaves_where qualifies r) =
   filter (\<lambda>k. k \<in> qualifying_fields r) [''employee_name'', ''document_type'', ''role'']"
  by (simp add: leaves_where_def qualifying_fields_def)

lemma construct_metadata_filter_cases:
  "construct_metadata_filter x = Inr None \<or>
   (\<exists>ls. ls \<noteq> [] \<and> construct_metadata_filter x = Inr (Some (AndAll ls)))"
proof (cases x)
  case None
  then show ?thesis by (simp add: construct_metadata_filter_def)
next
  case (Some ee)
  show ?thesis
  proof (cases "entities ee")
    case Nil
    with Some show ?thesis by (simp add: construct_metadata_filter_def)
  next
    case (Cons r rest)
    with Some show ?thesis by (simp add: construct_metadata_filter_Cons)
  qed
qed

lemma conjunction_of_construct:
  "entities ee = r # rest \<Longrightarrow>
   conjunction_of (construct_metadata_filter (Some ee)) = leaves_where qualifies r"
  by (simp add: construct_metadata_filter_Cons)

text \<open>
  Claim C1, as stated, fails on a field that holds the empty string: the field is present
  and not \<^verbatim>\<open>"unknown"\<close>, and the builder emits no leaf for it.
\<close>

theorem construct_metadata_filter_present_not_unknown_counterexample:
  "spec_qualifies (employee_name
      \<lparr>employee_name = Some [], document_type = Some ''finance'', role = None\<rparr>)
   \<and> leaves_where spec_qualifies
        \<lparr>employee_name = Some [], document_type = Some ''finance'', role = None\<rparr> =
      [Equals ''employee_name'' [], Equals ''document_type'' ''finance'']
   \<and> construct_metadata_filter (Some \<lparr>entities =
        [\<lparr>employee_name = Some [], document_type = Some ''finance'', role = None\<rparr>]\<rparr>) =
      Inr (Some (AndAll [Equals ''document_type'' ''finance'']))"
  by (simp add: spec_qualifies_def leaves_where_def construct_metadata_filter_def)

text \<open>
  Claim C1, amended. For an input whose first record is \<open>r\<close>, the output conjunction
  holds the \<^verbatim>\<open>equals\<close> leaf of a field exactly when the field is present, not the empty
  string and not \<^verbatim>\<open>"unknown"\<close>; the leaves come in the order \<^verbatim>\<open>employee_name\<close>,
  \<^verbatim>\<open>document_type\<close>, \<^verbatim>\<open>role\<close>; without a leaf the result is \<^verbatim>\<open>None\<close>.
\<close>

theorem construct_metadata_filter_leaves:
  assumes "entities ee = r # rest"
  shows "construct_metadata_filter (Some ee) =
           Inr (if leaves_where qualifies r = [] then None
                else Some (AndAll (leaves_where qualifies r)))
         \<and> conjunction_of (construct_metadata_filter (Some ee)) =
             (if qualifies (employee_name r)
              then [Equals ''employee_name'' (the (employee_name r))] else []) @
             (if qualifies (document_type r)
              then [Equals ''document_type'' (the (document_type r))] else []) @
             (if qualifies (role r) then [Equals ''role'' (the (role r))] else [])
         \<and> (Equals ''employee_name'' v \<in> set (conjunction_of (construct_metadata_filter (Some ee)))
              \<longleftrightarrow> employee_name r = Some v \<and> v \<noteq> [] \<and> v \<noteq> ''unknown'')
         \<and> (Equals ''document_type'' v \<in> set (conjunction_of (construct_metadata_filter (Some ee)))
              \<longleftrightarrow> document_type r = Some v \<and> v \<noteq> [] \<and> v \<noteq> ''unknown'')
         \<and> (Equals ''role'' v \<in> set (conjunction_of (construct_metadata_filter (Some ee)))
              \<longleftrightarrow> role r = Some v \<and> v \<noteq> [] \<and> v \<noteq> ''unknown'')"
proof -
  let ?ls = "leaves_where qualifies r"
  have res: "construct_metadata_filter (Some ee) =
               Inr (if ?ls = [] then None else Some (AndAll ?ls))"
    using assms by (rule construct_metadata_filter_Cons)
  have conj: "conjunction_of (construct_metadata_filter (Some ee)) = ?ls"
    by (simp add: res)
  have e: "Equals ''employee_name'' v \<in> set ?ls
             \<longleftrightarrow> employee_name r = Some v \<and> v \<noteq> [] \<and> v \<noteq> ''unknown''"
    by (auto simp: leaves_where_def qualifies_def)
  have d: "Equals ''document_type'' v \<in> set ?ls
             \<longleftrightarrow> document_type r = Some v \<and> v \<noteq> [] \<and> v \<noteq> ''unknown''"
    by (auto simp: leaves_where_def qualifies_def)
  have ro: "Equals ''role'' v \<in> set ?ls
             \<longleftrightarrow> role r = Some v \<and> v \<noteq> [] \<and> v \<noteq> ''unknown''"
    by (auto simp: leaves_where_def qualifies_def)
  show ?thesis
    unfolding conj using res e d ro by (simp add: leaves_where_def)
qed

text \<open>
  The theorem at the record of the specification with subject identity and category and
  no role.
\<close>

theorem construct_metadata_filter_leaves_witness:
  "entities \<lparr>entities = [\<lparr>employee_name = Some ''Alex Anderson'',
        document_type = Some ''finance'', role = None\<rparr>]\<rparr> =
     [\<lparr>employee_name = Some ''Alex Anderson'', document_type = Some ''finance'', role = None\<rparr>]
   \<and> construct_metadata_filter (Some \<lparr>entities = [\<lparr>employee_name = Some ''Alex Anderson'',
        document_type = Some ''finance'', role = None\<rparr>]\<rparr>) =
     Inr (Some (AndAll [Equals ''employee_name'' ''Alex Anderson'',
                        Equals ''document_type'' ''finance'']))"
  using construct_metadata_filter_leaves
    [of "\<lparr>entities = [\<lparr>employee_name = Some ''Alex Anderson'',
           document_type = Some ''finance'', role = None\<rparr>]\<rparr>"
        "\<lparr>employee_name = Some ''Alex Anderson'', document_type = Some ''finance'', role = None\<rparr>"
        "[]" "[]"]
  by (simp add: leaves_where_def qualifies_def)

text \<open>
  Claim C2. Whatever the input, the builder returns \<^verbatim>\<open>None\<close> or a conjunction whose
  list of sub-expressions is not empty; an \<^verbatim>\<open>andAll\<close> with an empty list is never
  returned. When each of the three fields of the first record is absent or \<^verbatim>\<open>"unknown"\<close>,
  the result is \<^verbatim>\<open>None\<close>.
\<close>

theorem construct_metadata_filter_never_empty_conjunction:
  "(construct_metadata_filter x = Inr None \<or>
     (\<exists>ls. ls \<noteq> [] \<and> construct_metadata_filter x = Inr (Some (AndAll ls))))
   \<and> construct_metadata_filter x \<noteq> Inr (Some (AndAll []))
   \<and> (entities ee = r # rest
        \<and> (employee_name r = None \<or> employee_name r = Some ''unknown'')
        \<and> (document_type r = None \<or> document_type r = Some ''unknown'')
        \<and> (role r = None \<or> role r = Some ''unknown'')
       \<longrightarrow> construct_metadata_filter (Some ee) = Inr None)"
proof (intro conjI impI)
  show c: "construct_metadata_filter x = Inr None \<or>
     (\<exists>ls. ls \<noteq> [] \<and> construct_metadata_filter x = Inr (Some (AndAll ls)))"
    by (rule construct_metadata_filter_cases)
  from c show "construct_metadata_filter x \<noteq> Inr (Some (AndAll []))"
    by auto
next
  assume h: "entities ee = r # rest
        \<and> (employee_name r = None \<or> employee_name r = Some ''unknown'')
        \<and> (document_type r = None \<or> document_type r = Some ''unknown'')
        \<and> (role r = None \<or> role r = Some ''unknown'')"
  then have "leaves_where qualifies r = []"
    by (auto simp: leaves_where_def qualifies_def)
  with h show "construct_metadata_filter (Some ee) = Inr None"
    by (simp add: construct_metadata_filter_Cons)
qed

text \<open>The theorem at a record with two fields \<^verbatim>\<open>"unknown"\<close> and one absent.\<close>

theorem construct_metadata_filter_never_empty_conjunction_witness:
  "entities \<lparr>entities = [\<lparr>employee_name = Some ''unknown'', document_type = None,
        role = Some ''unknown''\<rparr>]\<rparr> =
     [\<lparr>employee_name = Some ''unknown'', document_type = None, role = Some ''unknown''\<rparr>]
   \<and> employee_name \<lparr>employee_name = Some ''unknown'', document_type = None,
        role = Some ''unknown''\<rparr> = Some ''unknown''
   \<and> document_type \<lparr>employee_name = Some ''unknown'', document_type = None,
        role = Some ''unknown''\<rparr> = None
   \<and> role \<lparr>employee_name = Some ''unknown'', document_type = None,
        role = Some ''unknown''\<rparr> = Some ''unknown''
   \<and> construct_metadata_filter (Some \<lparr>entities = [\<lparr>employee_name = Some ''unknown'',
        document_type = None, role = Some ''unknown''\<rparr>]\<rparr>) = Inr None"
  using construct_metadata_filter_never_empty_conjunction
    [of None
        "\<lparr>entities = [\<lparr>employee_name = Some ''unknown'', document_type = None,
            role = Some ''unknown''\<rparr>]\<rparr>"
        "\<lparr>employee_name = Some ''unknown'', document_type = None, role = Some ''unknown''\<rparr>"
        "[]"]
  by simp

text \<open>
  Claim C3. For the input \<^verbatim>\<open>None\<close> and for an \<^verbatim>\<open>ExtractedEntities\<close> without records
  the builder returns \<^verbatim>\<open>None\<close>: a value (\<open>Inr\<close>), not an exception.
\<close>

theorem construct_metadata_filter_no_records:
  "construct_metadata_filter None = Inr None
   \<and> construct_metadata_filter (Some \<lparr>entities = []\<rparr>) = Inr None"
  by (simp add: construct_metadata_filter_def)

text \<open>
  Claim C4. Two inputs with at least one record each and the same first record give the
  same output: the records after the first have no effect.
\<close>

theorem construct_metadata_filter_first_record_only:
  assumes "entities a \<noteq> []" and "entities b \<noteq> []"
    and "hd (entities a) = hd (entities b)"
  shows "construct_metadata_filter (Some a) = construct_metadata_filter (Some b)"
proof -
  from assms(1) obtain r ra where a: "entities a = r # ra"
    by (cases "entities a") auto
  from assms(2) obtain s rb where b: "entities b = s # rb"
    by (cases "entities b") auto
  from a b assms(3) have "r = s" by simp
  with a b show ?thesis by (simp add: construct_metadata_filter_Cons)
qed

text \<open>The theorem at a one-record input and the same input with a second record appended.\<close>

theorem construct_metadata_filter_first_record_only_witness:
  "entities \<lparr>entities = [\<lparr>employee_name = Some ''Alex Anderson'', document_type = Some ''finance'',
        role = None\<rparr>]\<rparr> \<noteq> []
   \<and> entities \<lparr>entities = [\<lparr>employee_name = Some ''Alex Anderson'', document_type = Some ''finance'',
        role = None\<rparr>, \<lparr>employee_name = Some ''Jane Smith'', document_type = Some ''healthcare'',
        role = Some ''manager''\<rparr>]\<rparr> \<noteq> []
   \<and> hd (entities \<lparr>entities = [\<lparr>employee_name = Some ''Alex Anderson'',
        document_type = Some ''finance'', role = None\<rparr>]\<rparr>) =
     hd (entities \<lparr>entities = [\<lparr>employee_name = Some ''Alex Anderson'', document_type = Some ''finance'',
        role = None\<rparr>, \<lparr>employee_name = Some ''Jane Smith'', document_type = Some ''healthcare'',
        role = Some ''manager''\<rparr>]\<rparr>)
   \<and> construct_metadata_filter (Some \<lparr>entities = [\<lparr>employee_name = Some ''Alex Anderson'',
        document_type = Some ''finance'', role = None\<rparr>, \<lparr>employee_name = Some ''Jane Smith'',
        document_type = Some ''healthcare'', role = Some ''manager''\<rparr>]\<rparr>) =
     Inr (Some (AndAll [Equals ''employee_name'' ''Alex Anderson'',
                        Equals ''document_type'' ''finance'']))"
proof -
  let ?r = "\<lparr>employee_name = Some ''Alex Anderson'', document_type = Some ''finance'',
        role = None\<rparr>"
  let ?s = "\<lparr>employee_name = Some ''Jane Smith'', document_type = Some ''healthcare'',
        role = Some ''manager''\<rparr>"
  have one: "construct_metadata_filter (Some \<lparr>entities = [?r]\<rparr>) =
     Inr (Some (AndAll [Equals ''employee_name'' ''Alex Anderson'',
                        Equals ''document_type'' ''finance'']))"
    by (simp add: construct_metadata_filter_def)
  have "construct_metadata_filter (Some \<lparr>entities = [?r]\<rparr>) =
        construct_metadata_filter (Some \<lparr>entities = [?r, ?s]\<rparr>)"
    by (rule construct_metadata_filter_first_record_only) simp_all
  with one show ?thesis by simp
qed

lemma append_equals_at_fresh:
  assumes "store w = s @ [ListObj xs]"
  shows "store (append_equals_at k f (length s) w) = s @ [ListObj (append_equals k f xs)]
         \<and> service_calls (append_equals_at k f (length s) w) = service_calls w"
proof (cases f)
  case None
  with assms show ?thesis by simp
next
  case (Some v)
  from assms have "fetch w (length s) = Some (ListObj xs)"
    by (simp add: fetch_def)
  with assms Some show ?thesis
    by (simp add: list_append_def)
qed

lemma construct_metadata_filter_run_entities:
  assumes "fetch w p = Some (EntitiesObj ee)"
  shows "\<exists>ls. construct_metadata_filter_run (Some p) w =
           (construct_metadata_filter (Some ee),
            if entities ee = [] then w else w\<lparr>store := store w @ [ListObj ls]\<rparr>)"
proof (cases "entities ee")
  case Nil
  with assms show ?thesis
    by (simp add: construct_metadata_filter_run_def construct_metadata_filter_def)
next
  case (Cons r rest)
  let ?a = "length (store w)"
  let ?w0 = "w\<lparr>store := store w @ [ListObj []]\<rparr>"
  let ?l1 = "append_equals ''employee_name'' (employee_name r) []"
  let ?l2 = "append_equals ''document_type'' (document_type r) ?l1"
  let ?l3 = "append_equals ''role'' (role r) ?l2"
  let ?w1 = "append_equals_at ''employee_name'' (employee_name r) ?a ?w0"
  let ?w2 = "append_equals_at ''document_type'' (document_type r) ?a ?w1"
  let ?w3 = "append_equals_at ''role'' (role r) ?a ?w2"
  have s0: "store ?w0 = store w @ [ListObj []]" by simp
  from append_equals_at_fresh [OF s0, of "''employee_name''" "employee_name r"]
  have s1: "store ?w1 = store w @ [ListObj ?l1]" and c1: "service_calls ?w1 = service_calls w"
    by simp_all
  from append_equals_at_fresh [OF s1, of "''document_type''" "document_type r"] c1
  have s2: "store ?w2 = store w @ [ListObj ?l2]" and c2: "service_calls ?w2 = service_calls w"
    by simp_all
  from append_equals_at_fresh [OF s2, of "''role''" "role r"] c2
  have s3: "store ?w3 = store w @ [ListObj ?l3]" and c3: "service_calls ?w3 = service_calls w"
    by simp_all
  from s3 c3 have w3: "?w3 = w\<lparr>store := store w @ [ListObj ?l3]\<rparr>"
    by (intro world.equality) simp_all
  from s3 have f3: "fetch ?w3 ?a = Some (ListObj ?l3)"
    by (simp add: fetch_def)
  have run: "construct_metadata_filter_run (Some p) w =
      (Inr (if ?l3 \<noteq> [] then Some (AndAll ?l3) else None), ?w3)"
    using assms Cons f3
    by (simp add: construct_metadata_filter_run_def new_list_def Let_def)
  have pure: "construct_metadata_filter (Some ee) =
      Inr (if ?l3 \<noteq> [] then Some (AndAll ?l3) else None)"
    using Cons by (simp add: construct_metadata_filter_def Let_def)
  from run pure w3 Cons show ?thesis by auto
qed

text \<open>
  Claim C7. On every input of its domain (\<^verbatim>\<open>None\<close>, no records, or records whose
  fields are optional strings) the builder returns a result and raises no exception: the
  index \<^verbatim>\<open>entities[0]\<close>, the one operation of the body that can raise, is never
  reached on an empty list. Run in a world, on \<^verbatim>\<open>None\<close> or on the address of an
  \<^verbatim>\<open>ExtractedEntities\<close>, the body returns that same result, makes no call of an
  external service, and leaves every object that existed before the call as it was, the
  argument among them: its appends go to the list it has created itself.
\<close>

theorem construct_metadata_filter_total:
  "(\<exists>res. construct_metadata_filter x = Inr res)
   \<and> (\<forall>e. construct_metadata_filter x \<noteq> Inl e)
   \<and> (arg = None \<or> (\<exists>p ee. arg = Some p \<and> fetch w p = Some (EntitiesObj ee)) \<longrightarrow>
       (\<exists>res w'. construct_metadata_filter_run arg w = (Inr res, w')
          \<and> Inr res = construct_metadata_filter (argument_value w arg)
          \<and> service_calls w' = service_calls w
          \<and> take (length (store w)) (store w') = store w
          \<and> (\<forall>a < length (store w). fetch w' a = fetch w a)))"
proof (intro conjI impI)
  from construct_metadata_filter_cases [of x]
  show "\<exists>res. construct_metadata_filter x = Inr res" by auto
  from construct_metadata_filter_cases [of x]
  show "\<forall>e. construct_metadata_filter x \<noteq> Inl e" by auto
next
  assume "arg = None \<or> (\<exists>p ee. arg = Some p \<and> fetch w p = Some (EntitiesObj ee))"
  then consider (none) "arg = None"
    | (some) p ee where "arg = Some p" "fetch w p = Some (EntitiesObj ee)"
    by blast
  then show "\<exists>res w'. construct_metadata_filter_run arg w = (Inr res, w')
          \<and> Inr res = construct_metadata_filter (argument_value w arg)
          \<and> service_calls w' = service_calls w
          \<and> take (length (store w)) (store w') = store w
          \<and> (\<forall>a < length (store w). fetch w' a = fetch w a)"
  proof cases
    case none
    then show ?thesis
      by (simp add: construct_metadata_filter_run_def construct_metadata_filter_def
          argument_value_def)
  next
    case some
    from construct_metadata_filter_run_entities [OF some(2)]
    obtain ls where run: "construct_metadata_filter_run (Some p) w =
           (construct_metadata_filter (Some ee),
            if entities ee = [] then w else w\<lparr>store := store w @ [ListObj ls]\<rparr>)"
      by blast
    from construct_metadata_filter_cases [of "Some ee"]
    obtain res where res: "construct_metadata_filter (Some ee) = Inr res" by auto
    have av: "argument_value w arg = Some ee"
      using some by (simp add: argument_value_def)
    let ?w' = "if entities ee = [] then w else w\<lparr>store := store w @ [ListObj ls]\<rparr>"
    have "service_calls ?w' = service_calls w"
      and "take (length (store w)) (store ?w') = store w"
      and "\<forall>a < length (store w). fetch ?w' a = fetch w a"
      by (simp_all add: fetch_def nth_append)
    with run res av some(1) show ?thesis by simp
  qed
qed

text \<open>
  The theorem in a world with one \<^verbatim>\<open>ExtractedEntities\<close> and one earlier call of a
  service: after the call the store has the new list and nothing else has changed.
\<close>

theorem construct_metadata_filter_total_witness:
  "fetch \<lparr>store = [EntitiesObj \<lparr>entities = [\<lparr>employee_name = Some ''Alex Anderson'',
        document_type = Some ''unknown'', role = Some ''manager''\<rparr>]\<rparr>],
      service_calls = [''converse'']\<rparr> 0 =
     Some (EntitiesObj \<lparr>entities = [\<lparr>employee_name = Some ''Alex Anderson'',
        document_type = Some ''unknown'', role = Some ''manager''\<rparr>]\<rparr>)
   \<and> construct_metadata_filter_run (Some 0)
       \<lparr>store = [EntitiesObj \<lparr>entities = [\<lparr>employee_name = Some ''Alex Anderson'',
          document_type = Some ''unknown'', role = Some ''manager''\<rparr>]\<rparr>],
        service_calls = [''converse'']\<rparr> =
     (Inr (Some (AndAll [Equals ''employee_name'' ''Alex Anderson'', Equals ''role'' ''manager''])),
      \<lparr>store = [EntitiesObj \<lparr>entities = [\<lparr>employee_name = Some ''Alex Anderson'',
          document_type = Some ''unknown'', role = Some ''manager''\<rparr>]\<rparr>,
          ListObj [Equals ''employee_name'' ''Alex Anderson'', Equals ''role'' ''manager'']],
       service_calls = [''converse'']\<rparr>)"
proof -
  let ?ee = "\<lparr>entities = [\<lparr>employee_name = Some ''Alex Anderson'',
        document_type = Some ''unknown'', role = Some ''manager''\<rparr>]\<rparr>"
  let ?w = "\<lparr>store = [EntitiesObj ?ee], service_calls = [''converse'']\<rparr>"
  have f: "fetch ?w 0 = Some (EntitiesObj ?ee)" by (simp add: fetch_def)
  then have h: "Some 0 = None \<or> (\<exists>p ee. Some 0 = Some p \<and> fetch ?w p = Some (EntitiesObj ee))"
    by blast
  from construct_metadata_filter_total [of None "Some 0" ?w] h
  obtain res w' where run: "construct_metadata_filter_run (Some 0) ?w = (Inr res, w')"
    and res: "Inr res = construct_metadata_filter (argument_value ?w (Some 0))"
    and calls: "service_calls w' = service_calls ?w"
    by blast
  have v: "construct_metadata_filter_run (Some 0) ?w =
     (Inr (Some (AndAll [Equals ''employee_name'' ''Alex Anderson'', Equals ''role'' ''manager''])),
      \<lparr>store = [EntitiesObj ?ee,
          ListObj [Equals ''employee_name'' ''Alex Anderson'', Equals ''role'' ''manager'']],
       service_calls = [''converse'']\<rparr>)"
    by (simp add: construct_metadata_filter_run_def fetch_def new_list_def list_append_def)
  from f v run show ?thesis by simp
qed

text \<open>
  Claim C8. The output is a function of the input alone, so that two invocations on the
  same input agree; and the order of the keys in the output conjunction is fixed by which
  fields qualify: the qualifying ones among \<^verbatim>\<open>employee_name\<close>, \<^verbatim>\<open>document_type\<close>,
  \<^verbatim>\<open>role\<close>, in this order, so that two first records with the same qualifying fields
  give the same sequence of keys.
\<close>

theorem construct_metadata_filter_deterministic:
  "(x = y \<longrightarrow> construct_metadata_filter x = construct_metadata_filter y)
   \<and> (entities a = r # ra \<and> entities b = s # rb \<and> qualifying_fields r = qualifying_fields s
      \<longrightarrow> map leaf_key (conjunction_of (construct_metadata_filter (Some a))) =
          filter (\<lambda>k. k \<in> qualifying_fields r) [''employee_name'', ''document_type'', ''role'']
        \<and> map leaf_key (conjunction_of (construct_metadata_filter (Some a))) =
          map leaf_key (conjunction_of (construct_metadata_filter (Some b))))"
proof (intro conjI impI)
  assume "x = y"
  then show "construct_metadata_filter x = construct_metadata_filter y" by simp
next
  assume h: "entities a = r # ra \<and> entities b = s # rb
      \<and> qualifying_fields r = qualifying_fields s"
  from h have ca: "conjunction_of (construct_metadata_filter (Some a)) = leaves_where qualifies r"
    by (simp add: conjunction_of_construct)
  from h have cb: "conjunction_of (construct_metadata_filter (Some b)) = leaves_where qualifies s"
    by (simp add: conjunction_of_construct)
  show "map leaf_key (conjunction_of (construct_metadata_filter (Some a))) =
      filter (\<lambda>k. k \<in> qualifying_fields r) [''employee_name'', ''document_type'', ''role'']"
    unfolding ca by (rule leaves_where_keys)
  show "map leaf_key (conjunction_of (construct_metadata_filter (Some a))) =
      map leaf_key (conjunction_of (construct_metadata_filter (Some b)))"
    unfolding ca cb leaves_where_keys using h by simp
qed

text \<open>The theorem at two records with different values and the same qualifying fields.\<close>

theorem construct_metadata_filter_deterministic_witness:
  "entities \<lparr>entities = [\<lparr>employee_name = Some ''Alex Anderson'', document_type = None,
        role = Some ''manager''\<rparr>]\<rparr> =
     [\<lparr>employee_name = Some ''Alex Anderson'', document_type = None, role = Some ''manager''\<rparr>]
   \<and> entities \<lparr>entities = [\<lparr>employee_name = Some ''Jane Smith'', document_type = Some ''unknown'',
        role = Some ''independent worker''\<rparr>]\<rparr> =
     [\<lparr>employee_name = Some ''Jane Smith'', document_type = Some ''unknown'',
        role = Some ''independent worker''\<rparr>]
   \<and> qualifying_fields \<lparr>employee_name = Some ''Alex Anderson'', document_type = None,
        role = Some ''manager''\<rparr> =
     qualifying_fields \<lparr>employee_name = Some ''Jane Smith'', document_type = Some ''unknown'',
        role = Some ''independent worker''\<rparr>
   \<and> map leaf_key (conjunction_of (construct_metadata_filter (Some \<lparr>entities =
        [\<lparr>employee_name = Some ''Alex Anderson'', document_type = None,
          role = Some ''manager''\<rparr>]\<rparr>))) =
     map leaf_key (conjunction_of (construct_metadata_filter (Some \<lparr>entities =
        [\<lparr>employee_name = Some ''Jane Smith'', document_type = Some ''unknown'',
          role = Some ''independent worker''\<rparr>]\<rparr>)))"
proof -
  let ?r = "\<lparr>employee_name = Some ''Alex Anderson'', document_type = None,
        role = Some ''manager''\<rparr>"
  let ?s = "\<lparr>employee_name = Some ''Jane Smith'', document_type = Some ''unknown'',
        role = Some ''independent worker''\<rparr>"
  have q: "qualifying_fields ?r = qualifying_fields ?s"
    by (simp add: qualifying_fields_def qualifies_def)
  have a: "entities \<lparr>entities = [?r]\<rparr> = [?r]" and b: "entities \<lparr>entities = [?s]\<rparr> = [?s]"
    by simp_all
  have "map leaf_key (conjunction_of (construct_metadata_filter (Some \<lparr>entities = [?r]\<rparr>))) =
        map leaf_key (conjunction_of (construct_metadata_filter (Some \<lparr>entities = [?s]\<rparr>)))"
    using construct_metadata_filter_deterministic
      [of None None "\<lparr>entities = [?r]\<rparr>" ?r "[]" "\<lparr>entities = [?s]\<rparr>" ?s "[]"] a b q
    by blast
  with a b q show ?thesis by blast
qed

text \<open>
  Claim C9. A field of the first record that holds the empty string gives the same output
  as the field absent and as the field \<^verbatim>\<open>"unknown"\<close>, and the output has no
  \<^verbatim>\<open>equals\<close> leaf for that field; for each of the three fields.
\<close>

theorem construct_metadata_filter_empty_string:
  "construct_metadata_filter (Some \<lparr>entities = r\<lparr>employee_name := Some []\<rparr> # rest\<rparr>) =
     construct_metadata_filter (Some \<lparr>entities = r\<lparr>employee_name := None\<rparr> # rest\<rparr>)
   \<and> construct_metadata_filter (Some \<lparr>entities = r\<lparr>employee_name := Some []\<rparr> # rest\<rparr>) =
     construct_metadata_filter (Some \<lparr>entities = r\<lparr>employee_name := Some ''unknown''\<rparr> # rest\<rparr>)
   \<and> (\<forall>v. Equals ''employee_name'' v \<notin> set (conjunction_of
        (construct_metadata_filter (Some \<lparr>entities = r\<lparr>employee_name := Some []\<rparr> # rest\<rparr>))))
   \<and> construct_metadata_filter (Some \<lparr>entities = r\<lparr>document_type := Some []\<rparr> # rest\<rparr>) =
     construct_metadata_filter (Some \<lparr>entities = r\<lparr>document_type := None\<rparr> # rest\<rparr>)
   \<and> construct_metadata_filter (Some \<lparr>entities = r\<lparr>document_type := Some []\<rparr> # rest\<rparr>) =
     construct_metadata_filter (Some \<lparr>entities = r\<lparr>document_type := Some ''unknown''\<rparr> # rest\<rparr>)
   \<and> (\<forall>v. Equals ''document_type'' v \<notin> set (conjunction_of
        (construct_metadata_filter (Some \<lparr>entities = r\<lparr>document_type := Some []\<rparr> # rest\<rparr>))))
   \<and> construct_metadata_filter (Some \<lparr>entities = r\<lparr>role := Some []\<rparr> # rest\<rparr>) =
     construct_metadata_filter (Some \<lparr>entities = r\<lparr>role := None\<rparr> # rest\<rparr>)
   \<and> construct_metadata_filter (Some \<lparr>entities = r\<lparr>role := Some []\<rparr> # rest\<rparr>) =
     construct_metadata_filter (Some \<lparr>entities = r\<lparr>role := Some ''unknown''\<rparr> # rest\<rparr>)
   \<and> (\<forall>v. Equals ''role'' v \<notin> set (conjunction_of
        (construct_metadata_filter (Some \<lparr>entities = r\<lparr>role := Some []\<rparr> # rest\<rparr>))))"
  by (simp add: construct_metadata_filter_Cons leaves_where_def qualifies_def)

text \<open>
  Claim C10, as stated, fails on a record with one field that is present and not
  \<^verbatim>\<open>"unknown"\<close> when that field holds the empty string: the result is \<^verbatim>\<open>None\<close>, no
  one-element conjunction.
\<close>

theorem construct_metadata_filter_single_spec_field_counterexample:
  "length (filter spec_qualifies
      [employee_name \<lparr>employee_name = None, document_type = Some ''unknown'', role = Some []\<rparr>,
       document_type \<lparr>employee_name = None, document_type = Some ''unknown'', role = Some []\<rparr>,
       role \<lparr>employee_name = None, document_type = Some ''unknown'', role = Some []\<rparr>]) = 1
   \<and> construct_metadata_filter (Some \<lparr>entities =
        [\<lparr>employee_name = None, document_type = Some ''unknown'', role = Some []\<rparr>]\<rparr>) = Inr None"
  by (simp add: spec_qualifies_def construct_metadata_filter_def)

text \<open>
  Claim C10, amended. When exactly one field of the first record is present, not empty and
  not \<^verbatim>\<open>"unknown"\<close>, the builder returns a conjunction of one element, the
  \<^verbatim>\<open>equals\<close> leaf of that field, and not the bare leaf.
\<close>

theorem construct_metadata_filter_single_field:
  assumes "entities ee = r # rest"
    and "length (filter qualifies [employee_name r, document_type r, role r]) = 1"
  shows "\<exists>k v. construct_metadata_filter (Some ee) = Inr (Some (AndAll [Equals k v]))
           \<and> (k, Some v) \<in> {(''employee_name'', employee_name r),
                 (''document_type'', document_type r), (''role'', role r)}
           \<and> qualifies (Some v)"
proof -
  have res: "construct_metadata_filter (Some ee) =
      Inr (if leaves_where qualifies r = [] then None
           else Some (AndAll (leaves_where qualifies r)))"
    using assms(1) by (rule construct_metadata_filter_Cons)
  consider
      (e) "qualifies (employee_name r)" "\<not> qualifies (document_type r)" "\<not> qualifies (role r)"
    | (d) "\<not> qualifies (employee_name r)" "qualifies (document_type r)" "\<not> qualifies (role r)"
    | (ro) "\<not> qualifies (employee_name r)" "\<not> qualifies (document_type r)" "qualifies (role r)"
    using assms(2) by (auto split: if_splits)
  then show ?thesis
  proof cases
    case e
    from e(1) obtain v where v: "employee_name r = Some v"
      by (auto simp: qualifies_def)
    with e show ?thesis by (simp add: res leaves_where_def)
  next
    case d
    from d(2) obtain v where v: "document_type r = Some v"
      by (auto simp: qualifies_def)
    with d show ?thesis by (simp add: res leaves_where_def)
  next
    case ro
    from ro(3) obtain v where v: "role r = Some v"
      by (auto simp: qualifies_def)
    with ro show ?thesis by (simp add: res leaves_where_def)
  qed
qed

text \<open>The theorem at a record whose category alone qualifies.\<close>

theorem construct_metadata_filter_single_field_witness:
  "entities \<lparr>entities = [\<lparr>employee_name = Some ''unknown'', document_type = Some ''healthcare'',
        role = None\<rparr>]\<rparr> =
     [\<lparr>employee_name = Some ''unknown'', document_type = Some ''healthcare'', role = None\<rparr>]
   \<and> length (filter qualifies
       [employee_name \<lparr>employee_name = Some ''unknown'', document_type = Some ''healthcare'',
          role = None\<rparr>,
        document_type \<lparr>employee_name = Some ''unknown'', document_type = Some ''healthcare'',
          role = None\<rparr>,
        role \<lparr>employee_name = Some ''unknown'', document_type = Some ''healthcare'',
          role = None\<rparr>]) = 1
   \<and> construct_metadata_filter (Some \<lparr>entities = [\<lparr>employee_name = Some ''unknown'',
        document_type = Some ''healthcare'', role = None\<rparr>]\<rparr>) =
     Inr (Some (AndAll [Equals ''document_type'' ''healthcare'']))"
proof -
  let ?r = "\<lparr>employee_name = Some ''unknown'', document_type = Some ''healthcare'',
        role = None\<rparr>"
  have one: "length (filter qualifies [employee_name ?r, document_type ?r, role ?r]) = 1"
    by (simp add: qualifies_def)
  have "\<exists>k v. construct_metadata_filter (Some \<lparr>entities = [?r]\<rparr>) =
          Inr (Some (AndAll [Equals k v]))
        \<and> (k, Some v) \<in> {(''employee_name'', employee_name ?r),
             (''document_type'', document_type ?r), (''role'', role ?r)}
        \<and> qualifies (Some v)"
    by (rule construct_metadata_filter_single_field [OF _ one]) simp
  then obtain k v where
      res: "construct_metadata_filter (Some \<lparr>entities = [?r]\<rparr>) =
              Inr (Some (AndAll [Equals k v]))"
    and kv: "(k, Some v) \<in> {(''employee_name'', employee_name ?r),
               (''document_type'', document_type ?r), (''role'', role ?r)}"
    and q: "qualifies (Some v)"
    by blast
  from kv q have "k = ''document_type'' \<and> v = ''healthcare''"
    by (auto simp: qualifies_def)
  with res one show ?thesis by simp
qed

section \<open>Properties of the validator \<^verbatim>\<open>remove_duplicates\<close>\<close>

lemma list_all_py_sorted_items:
  "list_all P (py_sorted_items d) = list_all P d"
  by (simp add: py_sorted_items_def list_all_iff)

lemma py_hashable_scalar: "scalar v \<Longrightarrow> py_hashable v = Inr (hv v)"
  by (cases v) simp_all

lemma hash_tuple_scalar:
  "list_all (\<lambda>kv. scalar (snd kv)) d \<Longrightarrow>
   hash_tuple d = Inr (map (\<lambda>kv. (fst kv, hv (snd kv))) d)"
proof (induction d)
  case Nil
  then show ?case by simp
next
  case (Cons kv d)
  obtain k v where kv: "kv = (k, v)" by (cases kv)
  from Cons.prems kv have "py_hashable v = Inr (hv v)"
    by (simp add: py_hashable_scalar)
  with Cons kv show ?case by simp
qed

lemma hval_eq_sym: "hval_eq a b = hval_eq b a"
  by (cases a; cases b) auto

lemma py_equal_scalar:
  "scalar v \<Longrightarrow> scalar w \<Longrightarrow> py_equal v w = hval_eq (hv v) (hv w)"
  by (simp add: py_equal_def py_hashable_scalar)

lemma tuple_eq_sorted:
  fixes p q :: "(string \<times> hval) list"
  assumes dp: "distinct (map fst p)" and sp: "sorted (map fst p)"
    and dq: "distinct (map fst q)" and sq: "sorted (map fst q)"
  shows "tuple_eq q p \<longleftrightarrow>
     (length p = length q \<and>
      (\<forall>kv \<in> set p. \<exists>w. map_of q (fst kv) = Some w \<and> hval_eq (snd kv) w))"
proof
  assume "tuple_eq q p"
  then have l: "length q = length p"
    and r: "\<And>i. i < length q \<Longrightarrow> fst (q ! i) = fst (p ! i) \<and> hval_eq (snd (q ! i)) (snd (p ! i))"
    by (auto simp: tuple_eq_def list_all2_conv_all_nth)
  have "\<exists>w. map_of q (fst kv) = Some w \<and> hval_eq (snd kv) w" if "kv \<in> set p" for kv
  proof -
    from that obtain i where i: "i < length p" and kv: "p ! i = kv"
      by (auto simp: in_set_conv_nth)
    from i l have "q ! i \<in> set q" by simp
    then have "(fst (q ! i), snd (q ! i)) \<in> set q" by simp
    with dq have "map_of q (fst (q ! i)) = Some (snd (q ! i))"
      by (rule map_of_is_SomeI)
    with r [of i] i l kv show ?thesis
      by (auto simp: hval_eq_sym)
  qed
  with l show "length p = length q \<and>
      (\<forall>kv \<in> set p. \<exists>w. map_of q (fst kv) = Some w \<and> hval_eq (snd kv) w)"
    by simp
next
  assume h: "length p = length q \<and>
      (\<forall>kv \<in> set p. \<exists>w. map_of q (fst kv) = Some w \<and> hval_eq (snd kv) w)"
  have sub: "set (map fst p) \<subseteq> set (map fst q)"
  proof
    fix k assume "k \<in> set (map fst p)"
    then obtain kv where "kv \<in> set p" and "k = fst kv" by auto
    with h obtain w where "map_of q k = Some w" by blast
    then have "(k, w) \<in> set q" by (rule map_of_SomeD)
    then show "k \<in> set (map fst q)" by force
  qed
  from distinct_card [OF dp] distinct_card [OF dq] h
  have "card (set (map fst p)) = card (set (map fst q))"
    by simp
  with sub have "set (map fst p) = set (map fst q)"
    by (intro card_subset_eq) simp_all
  with sp dp sq dq have keys: "map fst p = map fst q"
    by (intro sorted_distinct_set_unique)
  have "fst (q ! i) = fst (p ! i) \<and> hval_eq (snd (q ! i)) (snd (p ! i))"
    if i: "i < length q" for i
  proof -
    from keys i h have k: "fst (p ! i) = fst (q ! i)"
      by (metis nth_map)
    from i h have "p ! i \<in> set p" by simp
    with h obtain w where w: "map_of q (fst (p ! i)) = Some w" and e: "hval_eq (snd (p ! i)) w"
      by blast
    from i have "(fst (q ! i), snd (q ! i)) \<in> set q" by simp
    with dq have "map_of q (fst (q ! i)) = Some (snd (q ! i))"
      by (rule map_of_is_SomeI)
    with w k have "w = snd (q ! i)" by simp
    with e k show ?thesis by (simp add: hval_eq_sym)
  qed
  with h show "tuple_eq q p"
    by (simp add: tuple_eq_def list_all2_conv_all_nth)
qed

lemma map_of_hv:
  "map_of (map (\<lambda>kv. (fst kv, hv (snd kv))) d) k = map_option hv (map_of d k)"
  by (induction d) auto

lemma map_of_py_sorted_items:
  "distinct (map fst d) \<Longrightarrow> map_of (py_sorted_items d) = map_of d"
  by (subst map_of_inject_set) (simp_all add: py_sorted_items_def distinct_map)

lemma record_key_keys:
  "distinct (map fst d) \<Longrightarrow>
   distinct (map fst (map (\<lambda>kv. (fst kv, hv (snd kv))) (py_sorted_items d))) \<and>
   sorted (map fst (map (\<lambda>kv. (fst kv, hv (snd kv))) (py_sorted_items d)))"
  by (simp add: py_sorted_items_def distinct_map comp_def)

lemma tuple_eq_record_key:
  assumes "raw_record x" and "raw_record y"
  shows "tuple_eq (record_key y) (record_key x) \<longleftrightarrow> py_same_record x y"
proof -
  from assms(1) obtain a where x: "x = PDict a" and da: "distinct (map fst a)"
    and va: "list_all (\<lambda>kv. scalar (snd kv)) a"
    by (cases x) auto
  from assms(2) obtain b where y: "y = PDict b" and db: "distinct (map fst b)"
    and vb: "list_all (\<lambda>kv. scalar (snd kv)) b"
    by (cases y) auto
  let ?g = "\<lambda>kv::string \<times> pyval. (fst kv, hv (snd kv))"
  let ?p = "map ?g (py_sorted_items a)"
  let ?q = "map ?g (py_sorted_items b)"
  have mq: "map_of ?q k = map_option hv (map_of b k)" for k
    using db by (simp add: map_of_hv map_of_py_sorted_items)
  have item: "(\<exists>w. map_of ?q (fst (?g kv)) = Some w \<and> hval_eq (snd (?g kv)) w) \<longleftrightarrow>
      (case map_of b (fst kv) of None \<Rightarrow> False | Some w \<Rightarrow> py_equal (snd kv) w)"
    if kv: "kv \<in> set a" for kv
  proof (cases "map_of b (fst kv)")
    case None
    then show ?thesis by (simp add: mq)
  next
    case (Some w)
    then have "(fst kv, w) \<in> set b" by (rule map_of_SomeD)
    with vb have "scalar w" by (auto simp: list_all_iff)
    moreover from kv va have "scalar (snd kv)" by (auto simp: list_all_iff)
    ultimately show ?thesis using Some by (simp add: mq py_equal_scalar)
  qed
  have "tuple_eq ?q ?p \<longleftrightarrow>
     (length ?p = length ?q \<and>
      (\<forall>kv \<in> set ?p. \<exists>w. map_of ?q (fst kv) = Some w \<and> hval_eq (snd kv) w))"
    using record_key_keys [OF da] record_key_keys [OF db]
    by (intro tuple_eq_sorted) simp_all
  also have "set ?p = ?g ` set a"
    by (simp add: py_sorted_items_def)
  also have "length ?p = length a" by (simp add: py_sorted_items_def)
  also have "length ?q = length b" by (simp add: py_sorted_items_def)
  finally have "tuple_eq ?q ?p \<longleftrightarrow>
     (length a = length b \<and>
      (\<forall>kv \<in> set a. \<exists>w. map_of ?q (fst (?g kv)) = Some w \<and> hval_eq (snd (?g kv)) w))"
    by simp
  also have "\<dots> \<longleftrightarrow> (length a = length b \<and>
      (\<forall>kv \<in> set a. case map_of b (fst kv) of None \<Rightarrow> False | Some w \<Rightarrow> py_equal (snd kv) w))"
    using item by blast
  finally show ?thesis
    by (simp add: x y list_all_iff)
qed

lemma in_seen_append: "in_seen t (seen @ [s]) \<longleftrightarrow> in_seen t seen \<or> tuple_eq t s"
  by (auto simp: in_seen_def list_ex_iff)

lemma remove_duplicates_loop_py_dedup:
  "list_all raw_record es \<Longrightarrow>
   remove_duplicates_loop es seen uniq =
     Inr (uniq @ map sorted_record
       (py_dedup (filter (\<lambda>e. \<not> in_seen (record_key e) seen) es)))"
proof (induction es arbitrary: seen uniq)
  case Nil
  then show ?case by simp
next
  case (Cons e es)
  from Cons.prems have e: "raw_record e" and es: "list_all raw_record es"
    by simp_all
  from e obtain d where d: "e = PDict d" and v: "list_all (\<lambda>kv. scalar (snd kv)) d"
    by (cases e) auto
  have h: "hash_tuple (py_sorted_items d) = Inr (record_key e)"
    using v by (simp add: d hash_tuple_scalar list_all_py_sorted_items)
  show ?case
  proof (cases "in_seen (record_key e) seen")
    case True
    then show ?thesis
      using Cons.IH [OF es, of seen uniq] h by (simp add: d Let_def)
  next
    case False
    have f: "filter (\<lambda>x. \<not> in_seen (record_key x) (seen @ [record_key e])) es =
             filter (\<lambda>y. \<not> py_same_record e y)
               (filter (\<lambda>x. \<not> in_seen (record_key x) seen) es)"
      unfolding filter_filter
    proof (rule filter_cong [OF refl])
      fix x assume "x \<in> set es"
      with es have "raw_record x" by (simp add: list_all_iff)
      from tuple_eq_record_key [OF e this]
      show "(\<not> in_seen (record_key x) (seen @ [record_key e])) =
            (\<not> in_seen (record_key x) seen \<and> \<not> py_same_record e x)"
        by (simp add: in_seen_append)
    qed
    have "remove_duplicates_loop (e # es) seen uniq =
          remove_duplicates_loop es (seen @ [record_key e]) (uniq @ [sorted_record e])"
      using False h by (simp add: d Let_def)
    also have "\<dots> = Inr ((uniq @ [sorted_record e]) @ map sorted_record
        (py_dedup (filter (\<lambda>x. \<not> in_seen (record_key x) (seen @ [record_key e])) es)))"
      by (rule Cons.IH [OF es])
    finally have l: "remove_duplicates_loop (e # es) seen uniq =
        Inr ((uniq @ [sorted_record e]) @ map sorted_record
          (py_dedup (filter (\<lambda>y. \<not> py_same_record e y)
             (filter (\<lambda>x. \<not> in_seen (record_key x) seen) es))))"
      by (simp only: f)
    have r: "py_dedup (filter (\<lambda>x. \<not> in_seen (record_key x) seen) (e # es)) =
        e # py_dedup (filter (\<lambda>y. \<not> py_same_record e y)
             (filter (\<lambda>x. \<not> in_seen (record_key x) seen) es))"
      using False by simp
    show ?thesis by (simp only: l r) simp
  qed
qed

lemma remove_duplicates_py_dedup:
  "list_all raw_record es \<Longrightarrow>
   remove_duplicates (PList es) = Inr (map sorted_record (py_dedup es))"
  using remove_duplicates_loop_py_dedup [of es "[]" "[]"]
  by (simp add: remove_duplicates_def in_seen_def)

lemma hash_tuple_str_or_none:
  "list_all (\<lambda>kv. str_or_none (snd kv)) d \<Longrightarrow>
   hash_tuple d = Inr (map (\<lambda>kv. (fst kv, hv (snd kv))) d)"
proof (induction d)
  case Nil
  then show ?case by simp
next
  case (Cons kv d)
  obtain k v where kv: "kv = (k, v)" by (cases kv)
  from Cons.prems kv have "str_or_none v" by simp
  then have "py_hashable v = Inr (hv v)" by (cases v) simp_all
  with Cons kv show ?case by simp
qed

lemma hval_eq_str_or_none:
  "str_or_none v \<Longrightarrow> hval_eq (hv v) h \<longleftrightarrow> hv v = h"
  by (cases v; cases h) auto

lemma tuple_eq_str_or_none:
  "list_all (\<lambda>kv. str_or_none (snd kv)) d \<Longrightarrow>
   tuple_eq (map (\<lambda>kv. (fst kv, hv (snd kv))) d) t \<longleftrightarrow> map (\<lambda>kv. (fst kv, hv (snd kv))) d = t"
proof (induction d arbitrary: t)
  case Nil
  then show ?case by (auto simp: tuple_eq_def)
next
  case (Cons kv d)
  show ?case
  proof (cases t)
    case Nil
    then show ?thesis by (simp add: tuple_eq_def)
  next
    case (Cons x t')
    from Cons.prems have v: "str_or_none (snd kv)" and d: "list_all (\<lambda>kv. str_or_none (snd kv)) d"
      by simp_all
    from Cons.IH [OF d, of t'] hval_eq_str_or_none [OF v, of "snd x"] Cons
    show ?thesis by (auto simp: tuple_eq_def prod_eq_iff)
  qed
qed

lemma in_seen_record_key:
  assumes "entity_record e"
  shows "in_seen (record_key e) seen \<longleftrightarrow> record_key e \<in> set seen"
proof -
  from assms obtain d where e: "e = PDict d" and v: "list_all (\<lambda>kv. str_or_none (snd kv)) d"
    by (cases e) auto
  from v have "list_all (\<lambda>kv. str_or_none (snd kv)) (py_sorted_items d)"
    by (simp add: list_all_py_sorted_items)
  then show ?thesis
    by (auto simp: e in_seen_def list_ex_iff tuple_eq_str_or_none)
qed

lemma hv_inject:
  "str_or_none v \<Longrightarrow> str_or_none w \<Longrightarrow> hv v = hv w \<longleftrightarrow> v = w"
  by (cases v; cases w) auto

lemma map_hv_inject:
  "list_all (\<lambda>kv. str_or_none (snd kv)) a \<Longrightarrow> list_all (\<lambda>kv. str_or_none (snd kv)) b \<Longrightarrow>
   map (\<lambda>kv. (fst kv, hv (snd kv))) a = map (\<lambda>kv. (fst kv, hv (snd kv))) b \<longleftrightarrow> a = b"
proof (induction a arbitrary: b)
  case Nil
  then show ?case by auto
next
  case (Cons x a)
  then show ?case
    by (cases b) (auto simp: hv_inject prod_eq_iff)
qed

lemma py_sorted_items_eq_iff:
  assumes "distinct (map fst a)" and "distinct (map fst b)"
  shows "py_sorted_items a = py_sorted_items b \<longleftrightarrow> set a = set b"
proof
  assume "py_sorted_items a = py_sorted_items b"
  then have "set (py_sorted_items a) = set (py_sorted_items b)" by simp
  then show "set a = set b" by (simp add: py_sorted_items_def)
next
  assume s: "set a = set b"
  from assms have da: "distinct a" and db: "distinct b"
    by (auto simp: distinct_map)
  with s have "mset a = mset b"
    by (simp add: set_eq_iff_mset_eq_distinct)
  then have m: "mset a = mset (sort_key fst b)" by simp
  from assms(1) have inj: "inj_on fst (set a)"
    by (simp add: distinct_map)
  have "sort_key fst a = sort_key fst b"
    by (rule sort_key_inj_key_eq [OF m inj]) simp
  then show "py_sorted_items a = py_sorted_items b"
    by (simp add: py_sorted_items_def)
qed

lemma same_record_iff_record_key:
  assumes "entity_record x" and "entity_record y"
  shows "same_record x y \<longleftrightarrow> record_key x = record_key y"
proof -
  from assms(1) obtain a where x: "x = PDict a" and da: "distinct (map fst a)"
    and va: "list_all (\<lambda>kv. str_or_none (snd kv)) a"
    by (cases x) auto
  from assms(2) obtain b where y: "y = PDict b" and db: "distinct (map fst b)"
    and vb: "list_all (\<lambda>kv. str_or_none (snd kv)) b"
    by (cases y) auto
  have "record_key x = record_key y \<longleftrightarrow> py_sorted_items a = py_sorted_items b"
    using va vb by (simp add: x y map_hv_inject list_all_py_sorted_items)
  also have "\<dots> \<longleftrightarrow> set a = set b"
    using da db by (rule py_sorted_items_eq_iff)
  finally show ?thesis by (simp add: x y)
qed

lemma remove_duplicates_loop_spec:
  "list_all entity_record es \<Longrightarrow>
   remove_duplicates_loop es seen uniq =
     Inr (uniq @ map sorted_record (spec_dedup (filter (\<lambda>e. record_key e \<notin> set seen) es)))"
proof (induction es arbitrary: seen uniq)
  case Nil
  then show ?case by simp
next
  case (Cons e es)
  from Cons.prems have e: "entity_record e" and es: "list_all entity_record es"
    by simp_all
  from e obtain d where d: "e = PDict d" and v: "list_all (\<lambda>kv. str_or_none (snd kv)) d"
    by (cases e) auto
  have h: "hash_tuple (py_sorted_items d) = Inr (record_key e)"
    using v by (simp add: d hash_tuple_str_or_none list_all_py_sorted_items)
  show ?case
  proof (cases "record_key e \<in> set seen")
    case True
    then show ?thesis
      using Cons.IH [OF es, of seen uniq] h in_seen_record_key [OF e, of seen]
      by (simp add: d Let_def)
  next
    case False
    have f: "filter (\<lambda>x. record_key x \<notin> set (seen @ [record_key e])) es =
             filter (\<lambda>y. \<not> same_record e y) (filter (\<lambda>x. record_key x \<notin> set seen) es)"
      unfolding filter_filter
    proof (rule filter_cong [OF refl])
      fix x assume "x \<in> set es"
      with es have "entity_record x" by (simp add: list_all_iff)
      from same_record_iff_record_key [OF e this]
      show "(record_key x \<notin> set (seen @ [record_key e])) =
            (record_key x \<notin> set seen \<and> \<not> same_record e x)"
        by auto
    qed
    have "remove_duplicates_loop (e # es) seen uniq =
          remove_duplicates_loop es (seen @ [record_key e]) (uniq @ [sorted_record e])"
      using False h in_seen_record_key [OF e, of seen] by (simp add: d Let_def)
    also have "\<dots> = Inr ((uniq @ [sorted_record e]) @ map sorted_record
        (spec_dedup (filter (\<lambda>x. record_key x \<notin> set (seen @ [record_key e])) es)))"
      by (rule Cons.IH [OF es])
    finally have l: "remove_duplicates_loop (e # es) seen uniq =
        Inr ((uniq @ [sorted_record e]) @ map sorted_record
          (spec_dedup (filter (\<lambda>y. \<not> same_record e y)
             (filter (\<lambda>x. record_key x \<notin> set seen) es))))"
      by (simp only: f)
    have r: "spec_dedup (filter (\<lambda>x. record_key x \<notin> set seen) (e # es)) =
        e # spec_dedup (filter (\<lambda>y. \<not> same_record e y)
             (filter (\<lambda>x. record_key x \<notin> set seen) es))"
      using False by simp
    show ?thesis by (simp only: l r) simp
  qed
qed

lemma same_record_sorted_record:
  "entity_record e \<Longrightarrow> same_record (sorted_record e) e"
  by (cases e) (simp_all add: py_sorted_items_def)

lemma set_spec_dedup_subset: "set (spec_dedup xs) \<subseteq> set xs"
proof (induction xs rule: spec_dedup.induct)
  case 1
  then show ?case by simp
next
  case (2 x xs)
  then show ?case by auto
qed

section \<open>Properties of parsing the extractor output\<close>

lemma validate_field_extra:
  "k \<noteq> f \<Longrightarrow> validate_field sv req (d @ [(k, v)]) f = validate_field sv req d f"
  by (simp add: validate_field_def map_add_def split: option.splits)

lemma validate_Entity_extra:
  assumes "k \<notin> {''employee_name'', ''document_type'', ''role''}"
  shows "validate_Entity sv req loc (PDict (d @ [(k, v)])) = validate_Entity sv req loc (PDict d)"
proof -
  from assms have ne: "k \<noteq> ''employee_name''" "k \<noteq> ''document_type''" "k \<noteq> ''role''"
    by auto
  show ?thesis
    by (simp only: validate_Entity.simps validate_field_extra [OF ne(1)]
        validate_field_extra [OF ne(2)] validate_field_extra [OF ne(3)])
qed

lemma validate_field_rejected:
  "map_of d f = Some v \<Longrightarrow> \<not> str_or_none v \<Longrightarrow> sv v = None \<Longrightarrow>
   validate_field sv req d f = None"
  by (cases v) (simp_all add: validate_field_def)

lemma field_errors_mem:
  "(f, None) \<in> set rs \<Longrightarrow> loc @ [Key f] \<in> set (field_errors loc rs)"
  by (force simp: field_errors_def)

lemma validate_Entity_reports:
  assumes "f \<in> {''employee_name'', ''document_type'', ''role''}"
    and "validate_field sv req d f = None"
  shows "\<exists>locs. validate_Entity sv req loc (PDict d) = Inl locs \<and> loc @ [Key f] \<in> set locs"
proof -
  let ?a = "validate_field sv req d ''employee_name''"
  let ?b = "validate_field sv req d ''document_type''"
  let ?c = "validate_field sv req d ''role''"
  let ?rs = "[(''employee_name'', ?a), (''document_type'', ?b), (''role'', ?c)]"
  from assms(1) consider "f = ''employee_name''" | "f = ''document_type''" | "f = ''role''"
    by blast
  then have m: "(f, None) \<in> set ?rs \<and> (?a = None \<or> ?b = None \<or> ?c = None)"
  proof cases
    case 1
    with assms(2) have "?a = None" by simp
    with 1 show ?thesis by simp
  next
    case 2
    with assms(2) have "?b = None" by simp
    with 2 show ?thesis by simp
  next
    case 3
    with assms(2) have "?c = None" by simp
    with 3 show ?thesis by simp
  qed
  then have "?a = None \<or> ?b = None \<or> ?c = None" by (rule conjunct2)
  then have "validate_Entity sv req loc (PDict d) = Inl (field_errors loc ?rs)"
    by (cases ?a; cases ?b; cases ?c) (simp_all add: Let_def)
  moreover from m have "loc @ [Key f] \<in> set (field_errors loc ?rs)"
    by (intro field_errors_mem) (rule conjunct1)
  ultimately show ?thesis by blast
qed

lemma validate_items_reports:
  "j < length us \<Longrightarrow> us ! j = PDict d \<Longrightarrow>
   f \<in> {''employee_name'', ''document_type'', ''role''} \<Longrightarrow>
   validate_field sv req d f = None \<Longrightarrow>
   [Key ''entities'', Idx (i + j), Key f] \<in> set (fst (validate_items sv req i us))"
proof (induction us arbitrary: i j)
  case Nil
  then show ?case by simp
next
  case (Cons u us)
  show ?case
  proof (cases j)
    case 0
    with Cons.prems have u: "u = PDict d" by simp
    from validate_Entity_reports [OF Cons.prems(3,4), of "[Key ''entities'', Idx i]"]
    obtain locs where "validate_Entity sv req [Key ''entities'', Idx i] (PDict d) = Inl locs"
      and "[Key ''entities'', Idx i, Key f] \<in> set locs"
      by auto
    then show ?thesis
      using 0 u by (simp add: split_beta)
  next
    case (Suc j')
    with Cons.prems have "j' < length us" "us ! j' = PDict d" by simp_all
    from Cons.IH [OF this Cons.prems(3,4), of "Suc i"]
    show ?thesis
      using Suc by (simp add: split_beta split: sum.splits)
  qed
qed

lemma validate_field_entity_record:
  assumes "list_all (\<lambda>kv. str_or_none (snd kv)) d"
    and "req \<longrightarrow> f \<in> fst ` set d"
  shows "\<exists>x. validate_field sv req d f = Some x"
proof (cases "map_of d f")
  case None
  then have "f \<notin> fst ` set d" by (simp add: map_of_eq_None_iff)
  with assms(2) None show ?thesis by (simp add: validate_field_def)
next
  case (Some v)
  then have "(f, v) \<in> set d" by (rule map_of_SomeD)
  with assms(1) have "str_or_none v" by (auto simp: list_all_iff)
  then show ?thesis using Some by (cases v) (simp_all add: validate_field_def)
qed

lemma validate_Entity_entity_record:
  assumes "entity_record u" and "req \<longrightarrow> has_all_fields u"
  shows "\<exists>e. validate_Entity sv req loc u = Inr e"
proof -
  from assms(1) obtain d where u: "u = PDict d" and v: "list_all (\<lambda>kv. str_or_none (snd kv)) d"
    by (cases u) auto
  from assms(2) u have k: "req \<longrightarrow> ''employee_name'' \<in> fst ` set d"
    "req \<longrightarrow> ''document_type'' \<in> fst ` set d" "req \<longrightarrow> ''role'' \<in> fst ` set d"
    by simp_all
  from validate_field_entity_record [OF v k(1)] validate_field_entity_record [OF v k(2)]
    validate_field_entity_record [OF v k(3)]
  obtain x y z where "validate_field sv req d ''employee_name'' = Some x"
    "validate_field sv req d ''document_type'' = Some y"
    "validate_field sv req d ''role'' = Some z"
    by blast
  then show ?thesis by (simp add: u)
qed

lemma validate_items_entity_records:
  "\<forall>u \<in> set us. entity_record u \<and> (req \<longrightarrow> has_all_fields u) \<Longrightarrow>
   fst (validate_items sv req i us) = []"
proof (induction us arbitrary: i)
  case Nil
  then show ?case by simp
next
  case (Cons u us)
  from Cons.prems have "entity_record u" "req \<longrightarrow> has_all_fields u" by simp_all
  from validate_Entity_entity_record [OF this]
  obtain e where "validate_Entity sv req [Key ''entities'', Idx i] u = Inr e" by blast
  moreover from Cons have "fst (validate_items sv req (Suc i) us) = []" by simp
  ultimately show ?case by (simp add: split_beta)
qed

lemma entity_record_sorted_record:
  "entity_record u \<Longrightarrow> entity_record (sorted_record u)"
  by (cases u) (simp_all add: list_all_py_sorted_items, simp add: py_sorted_items_def distinct_map)

lemma has_all_fields_sorted_record:
  "has_all_fields u \<Longrightarrow> has_all_fields (sorted_record u)"
  by (cases u) (simp_all add: py_sorted_items_def)

lemma extract_entities_result_parse:
  "map_of obj ''entities'' = Some raw \<Longrightarrow> remove_duplicates raw = Inr us \<Longrightarrow>
   extract_entities_result sv req wte (Some obj) =
     (if fst (validate_items sv req 0 us) = []
      then Inr (Some \<lparr>entities = snd (validate_items sv req 0 us)\<rparr>)
      else Inl (ValidationError (fst (validate_items sv req 0 us))))"
proof -
  assume m: "map_of obj ''entities'' = Some raw" and r: "remove_duplicates raw = Inr us"
  from m have ne: "obj \<noteq> []" by auto
  obtain errs ents where v: "validate_items sv req 0 us = (errs, ents)"
    by (cases "validate_items sv req 0 us")
  show ?thesis
    using m r ne v
    by (cases errs) (simp_all add: extract_entities_result_def parse_obj_def)
qed


lemma set_py_dedup_subset: "set (py_dedup xs) \<subseteq> set xs"
proof (induction xs rule: py_dedup.induct)
  case 1
  then show ?case by simp
next
  case (2 x xs)
  then show ?case by auto
qed

lemma same_record_sorted_dict:
  "raw_record e \<Longrightarrow> same_record (sorted_record e) e"
  by (cases e) (simp_all add: py_sorted_items_def)

lemma validate_field_py_sorted_items:
  "distinct (map fst d) \<Longrightarrow> validate_field sv req (py_sorted_items d) f = validate_field sv req d f"
  by (simp add: validate_field_def map_of_py_sorted_items)

lemma validate_Entity_sorted_record:
  assumes "raw_record u"
  shows "validate_Entity sv req loc (sorted_record u) = validate_Entity sv req loc u"
proof -
  from assms obtain d where u: "u = PDict d" and d: "distinct (map fst d)"
    by (cases u) auto
  show ?thesis
    by (simp only: u sorted_record.simps validate_Entity.simps
        validate_field_py_sorted_items [OF d])
qed

lemma validate_Entity_Inl:
  assumes "validate_Entity sv req loc u = Inl es"
  shows "es \<noteq> []"
proof (cases u)
  case (PDict d)
  let ?a = "validate_field sv req d ''employee_name''"
  let ?b = "validate_field sv req d ''document_type''"
  let ?c = "validate_field sv req d ''role''"
  let ?rs = "[(''employee_name'', ?a), (''document_type'', ?b), (''role'', ?c)]"
  from assms PDict have "?a = None \<or> ?b = None \<or> ?c = None"
    by (cases ?a; cases ?b; cases ?c) (simp_all add: Let_def)
  then obtain f where m: "(f, None) \<in> set ?rs"
    by (cases ?a; cases ?b; cases ?c) force+
  from assms PDict \<open>?a = None \<or> ?b = None \<or> ?c = None\<close>
  have "es = field_errors loc ?rs"
    by (cases ?a; cases ?b; cases ?c) (simp_all add: Let_def)
  with field_errors_mem [OF m, of loc] show ?thesis by auto
qed (use assms in auto)

lemma validate_Entity_Inr_loc:
  assumes "validate_Entity sv req loc u = Inr e"
  shows "validate_Entity sv req loc' u = Inr e"
proof (cases u)
  case (PDict d)
  let ?a = "validate_field sv req d ''employee_name''"
  let ?b = "validate_field sv req d ''document_type''"
  let ?c = "validate_field sv req d ''role''"
  from assms PDict show ?thesis
    by (cases ?a; cases ?b; cases ?c) (simp_all add: Let_def)
qed (use assms in auto)

lemma validate_items_no_errors:
  "fst (validate_items sv req i us) = [] \<Longrightarrow>
   list_all2 (\<lambda>e u. \<forall>loc. validate_Entity sv req loc u = Inr e)
     (snd (validate_items sv req i us)) us"
proof (induction us arbitrary: i)
  case Nil
  then show ?case by simp
next
  case (Cons u us)
  show ?case
  proof (cases "validate_Entity sv req [Key ''entities'', Idx i] u")
    case (Inl es)
    from validate_Entity_Inl [OF Inl] Cons.prems Inl show ?thesis
      by (simp add: split_beta)
  next
    case (Inr e)
    with Cons.prems have "fst (validate_items sv req (Suc i) us) = []"
      by (simp add: split_beta)
    from Cons.IH [OF this] Inr validate_Entity_Inr_loc [OF Inr] show ?thesis
      by (simp add: split_beta)
  qed
qed

lemma parse_obj_entities:
  assumes "map_of obj ''entities'' = Some raw" and "remove_duplicates raw = Inr us"
    and "parse_obj sv req wte obj = Inr ee"
  shows "list_all2 (\<lambda>e u. \<forall>loc. validate_Entity sv req loc u = Inr e) (entities ee) us"
proof -
  obtain errs ents where v: "validate_items sv req 0 us = (errs, ents)"
    by (cases "validate_items sv req 0 us")
  from assms v have "errs = []" and "ee = \<lparr>entities = ents\<rparr>"
    by (cases errs; simp add: parse_obj_def)+
  with validate_items_no_errors [of sv req 0 us] v show ?thesis by simp
qed

section \<open>Deduplication and malformed input\<close>

text \<open>
  Claim C5, as stated, fails in two ways. Two records that are not structurally equal are
  taken for duplicates when a field holds \<^verbatim>\<open>True\<close> in one and \<^verbatim>\<open>1\<close> in the other:
  the set compares with \<^verbatim>\<open>==\<close>. And the resulting \<^verbatim>\<open>ExtractedEntities\<close> holds the
  same record twice when two raw records differ in an unrecognized field only: the
  duplicates are removed before the records are validated.
\<close>

theorem remove_duplicates_dedup_counterexample:
  "\<not> same_record
       (PDict [(''employee_name'', PStr ''Alex Anderson''), (''role'', PBool True)])
       (PDict [(''employee_name'', PStr ''Alex Anderson''), (''role'', PInt 1)])
   \<and> remove_duplicates (PList
       [PDict [(''employee_name'', PStr ''Alex Anderson''), (''role'', PBool True)],
        PDict [(''employee_name'', PStr ''Alex Anderson''), (''role'', PInt 1)]]) =
     Inr [PDict [(''employee_name'', PStr ''Alex Anderson''), (''role'', PBool True)]]
   \<and> parse_obj (\<lambda>v. None) True False [(''entities'', PList
       [PDict [(''employee_name'', PStr ''Alex Anderson''), (''document_type'', PStr ''finance''),
               (''role'', PStr ''manager''), (''age'', PStr ''41'')],
        PDict [(''employee_name'', PStr ''Alex Anderson''), (''document_type'', PStr ''finance''),
               (''role'', PStr ''manager''), (''age'', PStr ''42'')]])] =
     Inr \<lparr>entities =
       [\<lparr>employee_name = Some ''Alex Anderson'', document_type = Some ''finance'',
          role = Some ''manager''\<rparr>,
        \<lparr>employee_name = Some ''Alex Anderson'', document_type = Some ''finance'',
          role = Some ''manager''\<rparr>]\<rparr>"
  by code_simp

text \<open>
  Claim C5, amended. For every list of raw records whose values are hashable (dictionaries
  whose values are \<^verbatim>\<open>None\<close>, booleans, numbers or strings), \<^verbatim>\<open>remove_duplicates\<close>
  returns the records of the input with duplicates removed, where two records are
  duplicates when they have the same fields with values equal under \<^verbatim>\<open>==\<close>, in whatever
  order the fields come: the first occurrence of each record is kept, the later ones are
  dropped, the order of the first occurrences is kept, and each record comes back with its
  items sorted by key. For records whose values are strings or \<^verbatim>\<open>None\<close> these
  duplicates are the structurally equal records. The duplicates are removed from the raw
  records: when the parse succeeds, the resulting \<^verbatim>\<open>ExtractedEntities\<close> holds, in this
  order, the validated record of each raw record that was kept.
\<close>

theorem remove_duplicates_dedup:
  "(list_all raw_record es \<longrightarrow>
      remove_duplicates (PList es) = Inr (map sorted_record (py_dedup es))
      \<and> list_all2 same_record (map sorted_record (py_dedup es)) (py_dedup es))
   \<and> (list_all entity_record rs \<longrightarrow>
      remove_duplicates (PList rs) = Inr (map sorted_record (spec_dedup rs))
      \<and> list_all2 same_record (map sorted_record (spec_dedup rs)) (spec_dedup rs))
   \<and> (map_of obj ''entities'' = Some (PList xs) \<and> list_all raw_record xs
        \<and> parse_obj sv req wte obj = Inr ee \<longrightarrow>
      list_all2 (\<lambda>e u. \<forall>loc. validate_Entity sv req loc u = Inr e)
        (entities ee) (py_dedup xs))"
proof (intro conjI impI)
  assume r: "list_all raw_record es"
  then show "remove_duplicates (PList es) = Inr (map sorted_record (py_dedup es))"
    by (rule remove_duplicates_py_dedup)
  have "\<forall>e \<in> set (py_dedup es). raw_record e"
    using r set_py_dedup_subset [of es] by (auto simp: list_all_iff)
  then show "list_all2 same_record (map sorted_record (py_dedup es)) (py_dedup es)"
    by (simp add: list_all2_map1 list_all2_same same_record_sorted_dict)
next
  assume e: "list_all entity_record rs"
  show "remove_duplicates (PList rs) = Inr (map sorted_record (spec_dedup rs))"
    using remove_duplicates_loop_spec [OF e, of "[]" "[]"]
    by (simp add: remove_duplicates_def)
  have "\<forall>e \<in> set (spec_dedup rs). entity_record e"
    using e set_spec_dedup_subset [of rs] by (auto simp: list_all_iff)
  then show "list_all2 same_record (map sorted_record (spec_dedup rs)) (spec_dedup rs)"
    by (simp add: list_all2_map1 list_all2_same same_record_sorted_record)
next
  assume h: "map_of obj ''entities'' = Some (PList xs) \<and> list_all raw_record xs
        \<and> parse_obj sv req wte obj = Inr ee"
  then have us: "remove_duplicates (PList xs) = Inr (map sorted_record (py_dedup xs))"
    by (simp add: remove_duplicates_py_dedup)
  from h have m: "map_of obj ''entities'' = Some (PList xs)"
    and p: "parse_obj sv req wte obj = Inr ee"
    by simp_all
  have "list_all2 (\<lambda>e u. \<forall>loc. validate_Entity sv req loc u = Inr e)
      (entities ee) (map sorted_record (py_dedup xs))"
    by (rule parse_obj_entities [OF m us p])
  then have s: "list_all2 (\<lambda>e u. \<forall>loc. validate_Entity sv req loc (sorted_record u) = Inr e)
      (entities ee) (py_dedup xs)"
    by (simp add: list_all2_map2)
  have r: "\<forall>u \<in> set (py_dedup xs). raw_record u"
    using h set_py_dedup_subset [of xs] by (auto simp: list_all_iff)
  show "list_all2 (\<lambda>e u. \<forall>loc. validate_Entity sv req loc u = Inr e)
      (entities ee) (py_dedup xs)"
  proof (rule list.rel_mono_strong [OF s])
    fix e u assume "u \<in> set (py_dedup xs)"
      and "\<forall>loc. validate_Entity sv req loc (sorted_record u) = Inr e"
    with r show "\<forall>loc. validate_Entity sv req loc u = Inr e"
      by (simp add: validate_Entity_sorted_record)
  qed
qed

text \<open>
  The theorem at four records of which the second and the third equal the first under
  \<^verbatim>\<open>==\<close>, at three records with strings and \<^verbatim>\<open>None\<close>, and at the parse of two
  records that differ in the unrecognized field \<^verbatim>\<open>age\<close>.
\<close>

theorem remove_duplicates_dedup_witness:
  "list_all raw_record
     [PDict [(''role'', PBool True), (''employee_name'', PStr ''Alex Anderson'')],
      PDict [(''employee_name'', PStr ''Alex Anderson''), (''role'', PInt 1)],
      PDict [(''employee_name'', PStr ''Alex Anderson''), (''role'', PFloat 1)],
      PDict [(''employee_name'', PStr ''Jane Smith''), (''role'', PNone)]]
   \<and> remove_duplicates (PList
     [PDict [(''role'', PBool True), (''employee_name'', PStr ''Alex Anderson'')],
      PDict [(''employee_name'', PStr ''Alex Anderson''), (''role'', PInt 1)],
      PDict [(''employee_name'', PStr ''Alex Anderson''), (''role'', PFloat 1)],
      PDict [(''employee_name'', PStr ''Jane Smith''), (''role'', PNone)]]) =
     Inr [PDict [(''employee_name'', PStr ''Alex Anderson''), (''role'', PBool True)],
          PDict [(''employee_name'', PStr ''Jane Smith''), (''role'', PNone)]]
   \<and> list_all entity_record
     [PDict [(''role'', PStr ''manager''), (''employee_name'', PStr ''Alex Anderson'')],
      PDict [(''employee_name'', PStr ''Alex Anderson''), (''role'', PStr ''manager'')],
      PDict [(''employee_name'', PStr ''Jane Smith''), (''role'', PNone)]]
   \<and> remove_duplicates (PList
     [PDict [(''role'', PStr ''manager''), (''employee_name'', PStr ''Alex Anderson'')],
      PDict [(''employee_name'', PStr ''Alex Anderson''), (''role'', PStr ''manager'')],
      PDict [(''employee_name'', PStr ''Jane Smith''), (''role'', PNone)]]) =
     Inr [PDict [(''employee_name'', PStr ''Alex Anderson''), (''role'', PStr ''manager'')],
          PDict [(''employee_name'', PStr ''Jane Smith''), (''role'', PNone)]]
   \<and> parse_obj (\<lambda>v. None) True False [(''entities'', PList
       [PDict [(''employee_name'', PStr ''Alex Anderson''), (''document_type'', PStr ''finance''),
               (''role'', PStr ''manager''), (''age'', PStr ''41'')],
        PDict [(''employee_name'', PStr ''Alex Anderson''), (''document_type'', PStr ''finance''),
               (''role'', PStr ''manager''), (''age'', PStr ''42'')]])] =
     Inr \<lparr>entities =
       [\<lparr>employee_name = Some ''Alex Anderson'', document_type = Some ''finance'',
          role = Some ''manager''\<rparr>,
        \<lparr>employee_name = Some ''Alex Anderson'', document_type = Some ''finance'',
          role = Some ''manager''\<rparr>]\<rparr>
   \<and> list_all2 (\<lambda>e u. \<forall>loc. validate_Entity (\<lambda>v. None) True loc u = Inr e)
       [\<lparr>employee_name = Some ''Alex Anderson'', document_type = Some ''finance'',
          role = Some ''manager''\<rparr>,
        \<lparr>employee_name = Some ''Alex Anderson'', document_type = Some ''finance'',
          role = Some ''manager''\<rparr>]
       [PDict [(''employee_name'', PStr ''Alex Anderson''), (''document_type'', PStr ''finance''),
               (''role'', PStr ''manager''), (''age'', PStr ''41'')],
        PDict [(''employee_name'', PStr ''Alex Anderson''), (''document_type'', PStr ''finance''),
               (''role'', PStr ''manager''), (''age'', PStr ''42'')]]"
proof -
  let ?sv = "\<lambda>v::pyval. None :: string option"
  let ?es = "[PDict [(''role'', PBool True), (''employee_name'', PStr ''Alex Anderson'')],
      PDict [(''employee_name'', PStr ''Alex Anderson''), (''role'', PInt 1)],
      PDict [(''employee_name'', PStr ''Alex Anderson''), (''role'', PFloat 1)],
      PDict [(''employee_name'', PStr ''Jane Smith''), (''role'', PNone)]]"
  let ?rs = "[PDict [(''role'', PStr ''manager''), (''employee_name'', PStr ''Alex Anderson'')],
      PDict [(''employee_name'', PStr ''Alex Anderson''), (''role'', PStr ''manager'')],
      PDict [(''employee_name'', PStr ''Jane Smith''), (''role'', PNone)]]"
  let ?x1 = "PDict [(''employee_name'', PStr ''Alex Anderson''), (''document_type'', PStr ''finance''),
               (''role'', PStr ''manager''), (''age'', PStr ''41'')]"
  let ?x2 = "PDict [(''employee_name'', PStr ''Alex Anderson''), (''document_type'', PStr ''finance''),
               (''role'', PStr ''manager''), (''age'', PStr ''42'')]"
  let ?E = "\<lparr>employee_name = Some ''Alex Anderson'', document_type = Some ''finance'',
          role = Some ''manager''\<rparr>"
  note T = remove_duplicates_dedup
    [where es = ?es and rs = ?rs and xs = "[?x1, ?x2]"
       and obj = "[(''entities'', PList [?x1, ?x2])]" and sv = ?sv and req = True
       and wte = False and ee = "\<lparr>entities = [?E, ?E]\<rparr>"]
  have a: "list_all raw_record ?es" by simp
  have a': "map sorted_record (py_dedup ?es) =
      [PDict [(''employee_name'', PStr ''Alex Anderson''), (''role'', PBool True)],
       PDict [(''employee_name'', PStr ''Jane Smith''), (''role'', PNone)]]"
    by code_simp
  have b: "list_all entity_record ?rs" by simp
  have b': "map sorted_record (spec_dedup ?rs) =
      [PDict [(''employee_name'', PStr ''Alex Anderson''), (''role'', PStr ''manager'')],
       PDict [(''employee_name'', PStr ''Jane Smith''), (''role'', PNone)]]"
    by code_simp
  have c1: "map_of [(''entities'', PList [?x1, ?x2])] ''entities'' = Some (PList [?x1, ?x2])"
    by simp
  have c2: "list_all raw_record [?x1, ?x2]" by simp
  have c3: "parse_obj ?sv True False [(''entities'', PList [?x1, ?x2])] =
      Inr \<lparr>entities = [?E, ?E]\<rparr>"
    by code_simp
  have c': "py_dedup [?x1, ?x2] = [?x1, ?x2]" by code_simp
  from T a have r1: "remove_duplicates (PList ?es) = Inr (map sorted_record (py_dedup ?es))"
    by blast
  from T b have r2: "remove_duplicates (PList ?rs) = Inr (map sorted_record (spec_dedup ?rs))"
    by blast
  from T c1 c2 c3 have r3: "list_all2 (\<lambda>e u. \<forall>loc. validate_Entity ?sv True loc u = Inr e)
      (entities \<lparr>entities = [?E, ?E]\<rparr>) (py_dedup [?x1, ?x2])"
    by blast
  from r1 a' have r1': "remove_duplicates (PList ?es) =
      Inr [PDict [(''employee_name'', PStr ''Alex Anderson''), (''role'', PBool True)],
           PDict [(''employee_name'', PStr ''Jane Smith''), (''role'', PNone)]]"
    by simp
  from r2 b' have r2': "remove_duplicates (PList ?rs) =
      Inr [PDict [(''employee_name'', PStr ''Alex Anderson''), (''role'', PStr ''manager'')],
           PDict [(''employee_name'', PStr ''Jane Smith''), (''role'', PNone)]]"
    by simp
  from r3 c' have r3': "list_all2 (\<lambda>e u. \<forall>loc. validate_Entity ?sv True loc u = Inr e)
      [?E, ?E] [?x1, ?x2]"
    by simp
  from a r1' b r2' c3 r3' show ?thesis
    by (intro conjI)
qed

text \<open>
  Claim C6, as stated, fails on a record that carries an unrecognized field name: with the
  validator of strings that rejects every other value, under the settings of either
  version, the parse succeeds and the field \<^verbatim>\<open>age\<close> is gone from the result without
  an error.
\<close>

theorem extract_entities_result_extra_field_counterexample:
  "extract_entities_result (\<lambda>v. None) True False (Some [(''entities'', PList
      [PDict [(''employee_name'', PStr ''Alex Anderson''), (''document_type'', PStr ''finance''),
              (''role'', PStr ''manager''), (''age'', PStr ''42'')]])]) =
     Inr (Some \<lparr>entities = [\<lparr>employee_name = Some ''Alex Anderson'',
       document_type = Some ''finance'', role = Some ''manager''\<rparr>]\<rparr>)
   \<and> extract_entities_result (\<lambda>v. None) False True (Some [(''entities'', PList
      [PDict [(''employee_name'', PStr ''Alex Anderson''), (''document_type'', PStr ''finance''),
              (''role'', PStr ''manager''), (''age'', PStr ''42'')]])]) =
     Inr (Some \<lparr>entities = [\<lparr>employee_name = Some ''Alex Anderson'',
       document_type = Some ''finance'', role = Some ''manager''\<rparr>]\<rparr>)"
  by code_simp

text \<open>
  Claim C6, amended. A record carrying an unrecognized field name is not rejected: the
  validation of a record ignores the field, and a list of records whose values are strings
  or \<^verbatim>\<open>None\<close> parses without an error whatever field names they carry beside the three
  fields of \<^verbatim>\<open>Entity\<close>; where the installed Pydantic does not require these fields, the
  records need not have them either. When a recognised field of a record that
  \<^verbatim>\<open>remove_duplicates\<close> returned holds a value that is neither \<^verbatim>\<open>None\<close> nor a string
  and that the validator of strings rejects, the parse ends in a \<^verbatim>\<open>ValidationError\<close>
  that names the field at \<^verbatim>\<open>("entities", index, field)\<close>.
\<close>

theorem extract_entities_result_malformed:
  "(k \<notin> {''employee_name'', ''document_type'', ''role''} \<longrightarrow>
      validate_Entity sv req loc (PDict (d @ [(k, v)])) = validate_Entity sv req loc (PDict d))
   \<and> (map_of obj ''entities'' = Some (PList es) \<and> list_all entity_record es
        \<and> (req \<longrightarrow> list_all has_all_fields es) \<longrightarrow>
      (\<exists>ents. extract_entities_result sv req wte (Some obj) = Inr (Some \<lparr>entities = ents\<rparr>)))
   \<and> (map_of obj' ''entities'' = Some raw \<and> remove_duplicates raw = Inr us
        \<and> j < length us \<and> us ! j = PDict d'
        \<and> f \<in> {''employee_name'', ''document_type'', ''role''}
        \<and> map_of d' f = Some w \<and> \<not> str_or_none w \<and> sv w = None \<longrightarrow>
      (\<exists>locs. extract_entities_result sv req wte (Some obj') = Inl (ValidationError locs)
         \<and> [Key ''entities'', Idx j, Key f] \<in> set locs))"
proof (intro conjI impI)
  assume "k \<notin> {''employee_name'', ''document_type'', ''role''}"
  then show "validate_Entity sv req loc (PDict (d @ [(k, v)])) =
             validate_Entity sv req loc (PDict d)"
    by (rule validate_Entity_extra)
next
  assume h: "map_of obj ''entities'' = Some (PList es) \<and> list_all entity_record es
        \<and> (req \<longrightarrow> list_all has_all_fields es)"
  let ?us = "map sorted_record (spec_dedup es)"
  from h have r: "remove_duplicates (PList es) = Inr ?us"
    by (simp add: remove_duplicates_def remove_duplicates_loop_spec)
  have "\<forall>u \<in> set ?us. entity_record u \<and> (req \<longrightarrow> has_all_fields u)"
    using h set_spec_dedup_subset [of es]
    by (auto simp: list_all_iff entity_record_sorted_record has_all_fields_sorted_record)
  then have "fst (validate_items sv req 0 ?us) = []"
    by (rule validate_items_entity_records)
  with extract_entities_result_parse [OF _ r, of obj sv req wte] h
  show "\<exists>ents. extract_entities_result sv req wte (Some obj) = Inr (Some \<lparr>entities = ents\<rparr>)"
    by simp
next
  assume h: "map_of obj' ''entities'' = Some raw \<and> remove_duplicates raw = Inr us
        \<and> j < length us \<and> us ! j = PDict d'
        \<and> f \<in> {''employee_name'', ''document_type'', ''role''}
        \<and> map_of d' f = Some w \<and> \<not> str_or_none w \<and> sv w = None"
  then have "validate_field sv req d' f = None"
    by (simp add: validate_field_rejected)
  with h have "[Key ''entities'', Idx (0 + j), Key f] \<in> set (fst (validate_items sv req 0 us))"
    by (intro validate_items_reports) simp_all
  then have m: "[Key ''entities'', Idx j, Key f] \<in> set (fst (validate_items sv req 0 us))"
    by simp
  then have "fst (validate_items sv req 0 us) \<noteq> []" by auto
  with extract_entities_result_parse [of obj' raw us sv req wte] h m
  show "\<exists>locs. extract_entities_result sv req wte (Some obj') = Inl (ValidationError locs)
         \<and> [Key ''entities'', Idx j, Key f] \<in> set locs"
    by simp
qed

text \<open>
  The theorem at a record with the extra field \<^verbatim>\<open>age\<close>, and at a record whose
  \<^verbatim>\<open>employee_name\<close> is the integer 42 under a validator that rejects it.
\<close>

theorem extract_entities_result_malformed_witness:
  "''age'' \<notin> {''employee_name'', ''document_type'', ''role''}
   \<and> validate_Entity (\<lambda>v. None) True [Key ''entities'', Idx 0]
        (PDict ([(''employee_name'', PStr ''Alex Anderson''), (''document_type'', PStr ''finance''),
                 (''role'', PStr ''manager'')] @ [(''age'', PStr ''42'')])) =
      Inr \<lparr>employee_name = Some ''Alex Anderson'', document_type = Some ''finance'',
           role = Some ''manager''\<rparr>
   \<and> list_all entity_record
        [PDict [(''employee_name'', PStr ''Alex Anderson''), (''document_type'', PStr ''finance''),
                (''role'', PStr ''manager''), (''age'', PStr ''42'')]]
   \<and> list_all has_all_fields
        [PDict [(''employee_name'', PStr ''Alex Anderson''), (''document_type'', PStr ''finance''),
                (''role'', PStr ''manager''), (''age'', PStr ''42'')]]
   \<and> (\<exists>ents. extract_entities_result (\<lambda>v. None) True False (Some [(''entities'', PList
        [PDict [(''employee_name'', PStr ''Alex Anderson''), (''document_type'', PStr ''finance''),
                (''role'', PStr ''manager''), (''age'', PStr ''42'')]])]) =
          Inr (Some \<lparr>entities = ents\<rparr>))
   \<and> remove_duplicates (PList
        [PDict [(''role'', PStr ''manager''), (''employee_name'', PInt 42),
                (''document_type'', PStr ''finance'')]]) =
      Inr [PDict [(''document_type'', PStr ''finance''), (''employee_name'', PInt 42),
                  (''role'', PStr ''manager'')]]
   \<and> \<not> str_or_none (PInt 42)
   \<and> (\<exists>locs. extract_entities_result (\<lambda>v. None) True False (Some [(''entities'', PList
        [PDict [(''role'', PStr ''manager''), (''employee_name'', PInt 42),
                (''document_type'', PStr ''finance'')]])]) = Inl (ValidationError locs)
         \<and> [Key ''entities'', Idx 0, Key ''employee_name''] \<in> set locs)"
proof -
  let ?sv = "\<lambda>v::pyval. None :: string option"
  let ?d = "[(''employee_name'', PStr ''Alex Anderson''), (''document_type'', PStr ''finance''),
             (''role'', PStr ''manager'')]"
  let ?es = "[PDict [(''employee_name'', PStr ''Alex Anderson''), (''document_type'', PStr ''finance''),
                (''role'', PStr ''manager''), (''age'', PStr ''42'')]]"
  let ?raw = "PList [PDict [(''role'', PStr ''manager''), (''employee_name'', PInt 42),
                (''document_type'', PStr ''finance'')]]"
  let ?d' = "[(''document_type'', PStr ''finance''), (''employee_name'', PInt 42),
                  (''role'', PStr ''manager'')]"
  note T = extract_entities_result_malformed
    [where k = "''age''" and sv = ?sv and req = True and wte = False
       and loc = "[Key ''entities'', Idx 0]"
       and d = ?d and v = "PStr ''42''" and obj = "[(''entities'', PList ?es)]" and es = ?es
       and obj' = "[(''entities'', ?raw)]" and raw = ?raw and us = "[PDict ?d']" and j = 0
       and d' = ?d' and f = "''employee_name''" and w = "PInt 42"]
  have a: "''age'' \<notin> {''employee_name'', ''document_type'', ''role''}" by simp
  have a': "validate_Entity ?sv True [Key ''entities'', Idx 0] (PDict ?d) =
      Inr \<lparr>employee_name = Some ''Alex Anderson'', document_type = Some ''finance'',
           role = Some ''manager''\<rparr>"
    by (simp add: validate_field_def)
  have b1: "map_of [(''entities'', PList ?es)] ''entities'' = Some (PList ?es)" by simp
  have b2: "list_all entity_record ?es" by simp
  have b3: "list_all has_all_fields ?es" by simp
  have c1: "map_of [(''entities'', ?raw)] ''entities'' = Some ?raw" by simp
  have c2: "remove_duplicates ?raw = Inr [PDict ?d']" by code_simp
  have c3: "(0::nat) < length [PDict ?d']" "[PDict ?d'] ! 0 = PDict ?d'"
    "''employee_name'' \<in> {''employee_name'', ''document_type'', ''role''}"
    "map_of ?d' ''employee_name'' = Some (PInt 42)" "\<not> str_or_none (PInt 42)"
    by simp_all
  from T a a' have r1: "validate_Entity ?sv True [Key ''entities'', Idx 0]
        (PDict (?d @ [(''age'', PStr ''42'')])) =
      Inr \<lparr>employee_name = Some ''Alex Anderson'', document_type = Some ''finance'',
           role = Some ''manager''\<rparr>"
    by metis
  from T b1 b2 b3 have r2: "\<exists>ents. extract_entities_result ?sv True False
        (Some [(''entities'', PList ?es)]) = Inr (Some \<lparr>entities = ents\<rparr>)"
    by blast
  from T c1 c2 c3 have r3: "\<exists>locs. extract_entities_result ?sv True False
        (Some [(''entities'', ?raw)]) = Inl (ValidationError locs)
         \<and> [Key ''entities'', Idx 0, Key ''employee_name''] \<in> set locs"
    by blast
  from a r1 b2 b3 r2 c2 c3(5) r3 show ?thesis
    by (intro conjI)
qed

end
